theory Spec2Isabelle
  imports Main
begin

section \<open>Text\<close>

text \<open>
  Python text is modelled as \<^typ>\<open>string\<close>: the list of the bytes of its UTF-8 encoding,
  where a surrogate standing alone is encoded like any other code point below U+10000.
  Comparing, searching, splitting, joining and slicing between two found positions act on
  the encoding as they act on the text; a position counts bytes.
\<close>

fun starts_with :: "string \<Rightarrow> string \<Rightarrow> bool" where
  \<comment> \<open>\<^verbatim>\<open>s.startswith(p)\<close>, the prefix first\<close>
  "starts_with [] s = True"
| "starts_with (p # ps) [] = False"
| "starts_with (p # ps) (c # cs) = (p = c \<and> starts_with ps cs)"

fun contains :: "string \<Rightarrow> string \<Rightarrow> bool" where
  \<comment> \<open>\<^verbatim>\<open>sub in s\<close>, the substring first\<close>
  "contains sub [] = (sub = [])"
| "contains sub (c # cs) = (starts_with sub (c # cs) \<or> contains sub cs)"

fun split_from :: "string \<Rightarrow> string \<Rightarrow> string \<Rightarrow> string list" where
  \<comment> \<open>the pieces of the text still to read, after the reversed piece read so far\<close>
  "split_from sep acc [] = [rev acc]"
| "split_from sep acc (c # cs) =
     (if sep \<noteq> [] \<and> starts_with sep (c # cs)
      then rev acc # split_from sep [] (drop (length sep - 1) cs)
      else split_from sep (c # acc) cs)"

definition split :: "string \<Rightarrow> string \<Rightarrow> string list" where
  \<comment> \<open>\<^verbatim>\<open>s.split(sep)\<close> for a separator that is not empty, the text first\<close>
  "split s sep = split_from sep [] s"

definition whitespace :: "string list" where
  \<comment> \<open>the code points of \<^verbatim>\<open>str.isspace\<close>: U+0009 to U+000D, U+001C to U+0020, U+0085,
      U+00A0, U+1680, U+2000 to U+200A, U+2028, U+2029, U+202F, U+205F, U+3000\<close>
  "whitespace =
     map (\<lambda>c. [c]) [CHR 0x09, CHR 0x0A, CHR 0x0B, CHR 0x0C, CHR 0x0D,
                    CHR 0x1C, CHR 0x1D, CHR 0x1E, CHR 0x1F, CHR 0x20]
     @ [[CHR 0xC2, CHR 0x85], [CHR 0xC2, CHR 0xA0], [CHR 0xE1, CHR 0x9A, CHR 0x80]]
     @ map (\<lambda>c. [CHR 0xE2, CHR 0x80, c])
         [CHR 0x80, CHR 0x81, CHR 0x82, CHR 0x83, CHR 0x84, CHR 0x85, CHR 0x86, CHR 0x87,
          CHR 0x88, CHR 0x89, CHR 0x8A, CHR 0xA8, CHR 0xA9, CHR 0xAF]
     @ [[CHR 0xE2, CHR 0x81, CHR 0x9F], [CHR 0xE3, CHR 0x80, CHR 0x80]]"

function drop_leading :: "string list \<Rightarrow> string \<Rightarrow> string" where
  \<comment> \<open>the text without the given pieces at its start, as long as one of them is there\<close>
  "drop_leading ps s =
     (case find (\<lambda>p. p \<noteq> [] \<and> starts_with p s) ps of
        None \<Rightarrow> s
      | Some p \<Rightarrow> drop_leading ps (drop (length p) s))"
  by pat_completeness auto
termination
proof (relation "measure (\<lambda>(ps, s). length s)")
  show "wf (measure (\<lambda>(ps, s). length s))"
    by simp
next
  fix ps :: "string list" and s p :: string
  assume "find (\<lambda>p. p \<noteq> [] \<and> starts_with p s) ps = Some p"
  then have "p \<noteq> []" and "starts_with p s"
    by (auto simp: find_Some_iff)
  then have "s \<noteq> []" and "0 < length p"
    by (cases p; cases s; simp)+
  then show "((ps, drop (length p) s), (ps, s)) \<in> measure (\<lambda>(ps, s). length s)"
    by simp
qed

declare drop_leading.simps [simp del]

definition strip :: "string \<Rightarrow> string" where
  \<comment> \<open>\<^verbatim>\<open>s.strip()\<close>: white space is taken from the start, then from the end\<close>
  "strip s = rev (drop_leading (map rev whitespace) (rev (drop_leading whitespace s)))"

definition lower_ascii :: "string \<Rightarrow> string" where
  \<comment> \<open>\<^verbatim>\<open>s.lower()\<close> for a text of ASCII characters\<close>
  "lower_ascii s =
     map (\<lambda>c. if 65 \<le> (of_char c :: nat) \<and> (of_char c :: nat) \<le> 90
              then char_of ((of_char c :: nat) + 32) else c) s"

fun join :: "string \<Rightarrow> string list \<Rightarrow> string" where
  \<comment> \<open>\<^verbatim>\<open>sep.join(parts)\<close>\<close>
  "join sep [] = []"
| "join sep [x] = x"
| "join sep (x # y # ys) = x @ sep @ join sep (y # ys)"

definition digit_char :: "nat \<Rightarrow> char" where
  "digit_char d = char_of (48 + d)"

function str_nat :: "nat \<Rightarrow> string" where
  "str_nat n = (if n < 10 then [digit_char n] else str_nat (n div 10) @ [digit_char (n mod 10)])"
  by pat_completeness auto
termination
  by (relation "measure id") auto

declare str_nat.simps [simp del]

definition str_int :: "int \<Rightarrow> string" where
  \<comment> \<open>\<^verbatim>\<open>str(i)\<close> of a Python integer, which is what an f-string prints\<close>
  "str_int i = (if i < 0 then CHR ''-'' # str_nat (nat (- i)) else str_nat (nat i))"

section \<open>Values decoded from JSON\<close>

text \<open>
  The values \<^verbatim>\<open>json.loads\<close> builds. A number without fraction and exponent is a Python
  integer; any other number \<open>m\<close> times ten to the \<open>e\<close> is a float, kept as \<open>JFloat m e\<close>.
  An object keeps its members in the order of the text; a later member of the same name
  replaces an earlier one when the dictionary is read.
\<close>

datatype json =
    JNull
  | JBool bool
  | JInt int
  | JFloat int int
  | JNaN
  | JInfinity bool
  | JStr string
  | JArr "json list"
  | JObj "(string \<times> json) list"

definition float_is_zero :: "int \<Rightarrow> int \<Rightarrow> bool" where
  \<comment> \<open>the double nearest to \<open>m * 10 ^ e\<close> is zero: the value is at most \<open>2 ^ -1075\<close>\<close>
  "float_is_zero m e =
     (if 0 \<le> e then m = 0 else \<bar>m\<bar> * 2 ^ 1075 \<le> 10 ^ nat (- e))"

fun truthy :: "json \<Rightarrow> bool" where
  \<comment> \<open>Python's truth value\<close>
  "truthy JNull = False"
| "truthy (JBool b) = b"
| "truthy (JInt i) = (i \<noteq> 0)"
| "truthy (JFloat m e) = (\<not> float_is_zero m e)"
| "truthy JNaN = True"
| "truthy (JInfinity neg) = True"
| "truthy (JStr s) = (s \<noteq> [])"
| "truthy (JArr xs) = (xs \<noteq> [])"
| "truthy (JObj kvs) = (kvs \<noteq> [])"

definition dict_get :: "(string \<times> json) list \<Rightarrow> string \<Rightarrow> json option" where
  \<comment> \<open>the value a dictionary built from these members holds for a key\<close>
  "dict_get kvs k = map_of (rev kvs) k"

section \<open>Decoding JSON\<close>

text \<open>
  \<^verbatim>\<open>json.loads\<close> of the standard library, as its scanner reads a text: the grammar of
  JSON with the constants \<^verbatim>\<open>NaN\<close>, \<^verbatim>\<open>Infinity\<close> and \<^verbatim>\<open>-Infinity\<close>. It raises
  \<^verbatim>\<open>JSONDecodeError\<close> on a text outside the grammar and \<^verbatim>\<open>RecursionError\<close> on a text
  nested deeper than the interpreter allows; the depth allowed is the first argument. It
  raises \<^verbatim>\<open>ValueError\<close> on an integer of more digits than the interpreter converts. The
  second number of \<open>JSONObject\<close> and \<open>JSONArray\<close> bounds the members still to read by the
  length of the text.
\<close>

datatype json_exn = JSONDecodeError | RecursionError | ValueError

definition int_max_str_digits :: nat where
  \<comment> \<open>\<^verbatim>\<open>sys.int_max_str_digits\<close>, as the interpreter sets it\<close>
  "int_max_str_digits = 4300"

definition is_json_ws :: "char \<Rightarrow> bool" where
  "is_json_ws c = (c = CHR '' '' \<or> c = CHR 0x09 \<or> c = CHR 0x0A \<or> c = CHR 0x0D)"

definition skip_ws :: "string \<Rightarrow> string" where
  "skip_ws s = dropWhile is_json_ws s"

definition is_digit :: "char \<Rightarrow> bool" where
  "is_digit c = (48 \<le> (of_char c :: nat) \<and> (of_char c :: nat) \<le> 57)"

definition digit_val :: "char \<Rightarrow> nat" where
  "digit_val c = of_char c - 48"

definition digits_val :: "string \<Rightarrow> nat" where
  "digits_val ds = foldl (\<lambda>a c. 10 * a + digit_val c) 0 ds"

definition hex_val :: "char \<Rightarrow> nat option" where
  "hex_val c =
     (let n = (of_char c :: nat)
      in if 48 \<le> n \<and> n \<le> 57 then Some (n - 48)
         else if 65 \<le> n \<and> n \<le> 70 then Some (n - 55)
         else if 97 \<le> n \<and> n \<le> 102 then Some (n - 87)
         else None)"

definition decode_uXXXX :: "string \<Rightarrow> nat option" where
  \<comment> \<open>the code point that four hexadecimal digits write\<close>
  "decode_uXXXX s =
     (case map hex_val s of
        [Some a, Some b, Some c, Some d] \<Rightarrow> Some (((a * 16 + b) * 16 + c) * 16 + d)
      | _ \<Rightarrow> None)"

definition utf8 :: "nat \<Rightarrow> string" where
  \<comment> \<open>the bytes of a code point\<close>
  "utf8 cp =
     (if cp < 0x80 then [char_of cp]
      else if cp < 0x800 then [char_of (0xC0 + cp div 0x40), char_of (0x80 + cp mod 0x40)]
      else if cp < 0x10000 then
        [char_of (0xE0 + cp div 0x1000), char_of (0x80 + cp div 0x40 mod 0x40),
         char_of (0x80 + cp mod 0x40)]
      else
        [char_of (0xF0 + cp div 0x40000), char_of (0x80 + cp div 0x1000 mod 0x40),
         char_of (0x80 + cp div 0x40 mod 0x40), char_of (0x80 + cp mod 0x40)])"

definition is_high_surrogate :: "nat \<Rightarrow> bool" where
  "is_high_surrogate cp = (0xD800 \<le> cp \<and> cp \<le> 0xDBFF)"

definition is_low_surrogate :: "nat \<Rightarrow> bool" where
  "is_low_surrogate cp = (0xDC00 \<le> cp \<and> cp \<le> 0xDFFF)"

definition join_surrogates :: "nat \<Rightarrow> nat \<Rightarrow> nat" where
  "join_surrogates hi lo = 0x10000 + (hi - 0xD800) * 0x400 + (lo - 0xDC00)"

definition emit :: "string \<Rightarrow> (string \<times> string) option \<Rightarrow> (string \<times> string) option" where
  \<comment> \<open>the bytes read, before what the rest of the string gives\<close>
  "emit bs r = (case r of None \<Rightarrow> None | Some (str, after) \<Rightarrow> Some (bs @ str, after))"

definition backslash :: "char \<Rightarrow> char option" where
  "backslash c =
     (if c = CHR 0x22 then Some (CHR 0x22)
      else if c = CHR 0x5C then Some (CHR 0x5C)
      else if c = CHR ''/'' then Some (CHR ''/'')
      else if c = CHR ''b'' then Some (CHR 0x08)
      else if c = CHR ''f'' then Some (CHR 0x0C)
      else if c = CHR ''n'' then Some (CHR 0x0A)
      else if c = CHR ''r'' then Some (CHR 0x0D)
      else if c = CHR ''t'' then Some (CHR 0x09)
      else None)"

fun scanstring :: "string \<Rightarrow> (string \<times> string) option" where
  \<comment> \<open>the string after its opening quote: its text and what follows its closing quote;
      a high surrogate escape takes a low surrogate escape after it into one code point\<close>
  "scanstring [] = None"
| "scanstring (c # cs) =
     (if c = CHR 0x22 then Some ([], cs)
      else if c = CHR 0x5C then
        (case cs of
           [] \<Rightarrow> None
         | esc # rest \<Rightarrow>
             if esc = CHR ''u'' then
               (case decode_uXXXX (take 4 rest) of
                  None \<Rightarrow> None
                | Some c1 \<Rightarrow>
                    if is_high_surrogate c1 \<and> 6 < length (drop 4 rest)
                       \<and> starts_with [CHR 0x5C, CHR ''u''] (drop 4 rest)
                    then
                      (case decode_uXXXX (take 4 (drop 6 rest)) of
                         None \<Rightarrow> None
                       | Some c2 \<Rightarrow>
                           if is_low_surrogate c2
                           then emit (utf8 (join_surrogates c1 c2)) (scanstring (drop 10 rest))
                           else emit (utf8 c1) (scanstring (drop 4 rest)))
                    else emit (utf8 c1) (scanstring (drop 4 rest)))
             else
               (case backslash esc of
                  None \<Rightarrow> None
                | Some ch \<Rightarrow> emit [ch] (scanstring rest)))
      else if (of_char c :: nat) < 32 then None
      else emit [c] (scanstring cs))"

definition match_number :: "string \<Rightarrow> json_exn + json \<times> string" where
  "match_number s =
     (let neg = starts_with ''-'' s;
          s1 = (if neg then tl s else s);
          ip = (if starts_with ''0'' s1 then ''0'' else takeWhile is_digit s1);
          s2 = drop (length ip) s1;
          fp = (if starts_with ''.'' s2 then takeWhile is_digit (tl s2) else []);
          s3 = (if fp = [] then s2 else drop (length fp + 1) s2);
          sgn = (if starts_with ''e'' s3 \<or> starts_with ''E'' s3
                 then (if starts_with ''-'' (tl s3) \<or> starts_with ''+'' (tl s3)
                       then take 1 (tl s3) else [])
                 else []);
          ep = (if starts_with ''e'' s3 \<or> starts_with ''E'' s3
                then takeWhile is_digit (drop (length sgn + 1) s3) else []);
          s4 = (if ep = [] then s3 else drop (length sgn + 1 + length ep) s3);
          m = int (digits_val (ip @ fp));
          ex = (if sgn = ''-'' then - int (digits_val ep) else int (digits_val ep))
      in if ip = [] then Inl JSONDecodeError
         else if fp = [] \<and> ep = [] then
           (if int_max_str_digits < length ip then Inl ValueError
            else Inr (JInt (if neg then - m else m), s4))
         else Inr (JFloat (if neg then - m else m) (ex - int (length fp)), s4))"

fun scan_once :: "nat \<Rightarrow> string \<Rightarrow> json_exn + json \<times> string"
  and JSONObject :: "nat \<Rightarrow> nat \<Rightarrow> (string \<times> json) list \<Rightarrow> string \<Rightarrow> json_exn + json \<times> string"
  and JSONArray :: "nat \<Rightarrow> nat \<Rightarrow> json list \<Rightarrow> string \<Rightarrow> json_exn + json \<times> string"
where
  "scan_once d [] = Inl JSONDecodeError"
| "scan_once d (c # cs) =
     (if c = CHR 0x22 then
        (case scanstring cs of
           None \<Rightarrow> Inl JSONDecodeError
         | Some (str, rest) \<Rightarrow> Inr (JStr str, rest))
      else if c = CHR ''{'' then
        (case d of
           0 \<Rightarrow> Inl RecursionError
         | Suc d' \<Rightarrow>
             if starts_with ''}'' (skip_ws cs) then Inr (JObj [], tl (skip_ws cs))
             else JSONObject d' (length cs) [] (skip_ws cs))
      else if c = CHR ''['' then
        (case d of
           0 \<Rightarrow> Inl RecursionError
         | Suc d' \<Rightarrow>
             if starts_with '']'' (skip_ws cs) then Inr (JArr [], tl (skip_ws cs))
             else JSONArray d' (length cs) [] (skip_ws cs))
      else if starts_with ''null'' (c # cs) then Inr (JNull, drop 4 (c # cs))
      else if starts_with ''true'' (c # cs) then Inr (JBool True, drop 4 (c # cs))
      else if starts_with ''false'' (c # cs) then Inr (JBool False, drop 5 (c # cs))
      else if starts_with ''NaN'' (c # cs) then Inr (JNaN, drop 3 (c # cs))
      else if starts_with ''Infinity'' (c # cs) then Inr (JInfinity False, drop 8 (c # cs))
      else if starts_with ''-Infinity'' (c # cs) then Inr (JInfinity True, drop 9 (c # cs))
      else match_number (c # cs))"
| "JSONObject d 0 acc s = Inl JSONDecodeError"
| "JSONObject d (Suc n) acc s =
     (if \<not> starts_with [CHR 0x22] s then Inl JSONDecodeError
      else
        (case scanstring (tl s) of
           None \<Rightarrow> Inl JSONDecodeError
         | Some (key, s1) \<Rightarrow>
             if \<not> starts_with '':'' (skip_ws s1) then Inl JSONDecodeError
             else
               (case scan_once d (skip_ws (tl (skip_ws s1))) of
                  Inl ex \<Rightarrow> Inl ex
                | Inr (v, s2) \<Rightarrow>
                    if starts_with ''}'' (skip_ws s2)
                    then Inr (JObj (acc @ [(key, v)]), tl (skip_ws s2))
                    else if starts_with '','' (skip_ws s2)
                    then JSONObject d n (acc @ [(key, v)]) (skip_ws (tl (skip_ws s2)))
                    else Inl JSONDecodeError)))"
| "JSONArray d 0 acc s = Inl JSONDecodeError"
| "JSONArray d (Suc n) acc s =
     (case scan_once d s of
        Inl ex \<Rightarrow> Inl ex
      | Inr (v, s1) \<Rightarrow>
          if starts_with '']'' (skip_ws s1) then Inr (JArr (acc @ [v]), tl (skip_ws s1))
          else if starts_with '','' (skip_ws s1)
          then JSONArray d n (acc @ [v]) (skip_ws (tl (skip_ws s1)))
          else Inl JSONDecodeError)"

definition json_loads :: "nat \<Rightarrow> string \<Rightarrow> json_exn + json" where
  "json_loads d s =
     (case scan_once d (skip_ws s) of
        Inl ex \<Rightarrow> Inl ex
      | Inr (v, rest) \<Rightarrow> if skip_ws rest = [] then Inr v else Inl JSONDecodeError)"

section \<open>Parsing a reply of the language model\<close>

definition find_char :: "char \<Rightarrow> string \<Rightarrow> nat" where
  \<comment> \<open>\<^verbatim>\<open>s.find(c)\<close> for a character that occurs in the text\<close>
  "find_char c s = length (takeWhile (\<lambda>x. x \<noteq> c) s)"

definition rfind_char :: "char \<Rightarrow> string \<Rightarrow> nat" where
  \<comment> \<open>\<^verbatim>\<open>s.rfind(c)\<close> for a character that occurs in the text\<close>
  "rfind_char c s = length s - 1 - length (takeWhile (\<lambda>x. x \<noteq> c) (rev s))"

definition slice :: "nat \<Rightarrow> nat \<Rightarrow> string \<Rightarrow> string" where
  \<comment> \<open>\<^verbatim>\<open>s[i:j]\<close>\<close>
  "slice i j s = take (j - i) (drop i s)"

definition parse_json_response :: "nat \<Rightarrow> string \<Rightarrow> json" where
  "parse_json_response depth reply =
     (let response = strip reply
      in if CHR ''{'' \<in> set response \<and> CHR ''}'' \<in> set response then
           (let start = find_char CHR ''{'' response;
                stop = rfind_char CHR ''}'' response + 1;
                json_str = slice start stop response
            in case json_loads depth json_str of
                 Inr v \<Rightarrow> v
               | Inl JSONDecodeError \<Rightarrow>
                   JObj [(''error'', JStr ''Invalid JSON''), (''raw_response'', JStr response)]
               | Inl RecursionError \<Rightarrow>
                   JObj [(''error'', JStr ''Parse error''), (''raw_response'', JStr response)]
               | Inl ValueError \<Rightarrow>
                   JObj [(''error'', JStr ''Parse error''), (''raw_response'', JStr response)])
         else JObj [(''error'', JStr ''No JSON found in response'')])"

section \<open>Run State and its surroundings\<close>

text \<open>
  \<^verbatim>\<open>AgentState\<close> of \<^verbatim>\<open>app/nodes.py\<close>. The keys the nodes read with \<^verbatim>\<open>state.get\<close> or test
  with \<^verbatim>\<open>in\<close> may be missing (\<open>None\<close>); the keys they read only by subscript are present,
  as the typed dictionary declares. The fields a decoded JSON value is stored into
  (\<^verbatim>\<open>intent\<close>, \<^verbatim>\<open>rephrased_prompt\<close>, \<^verbatim>\<open>analysis\<close>, \<^verbatim>\<open>sql_query\<close>) hold a \<^typ>\<open>json\<close> value, since
  nothing in the nodes checks that the value is text.
\<close>

record message =
  user_text :: string
  bot_text :: string

record AgentState =
  user_prompt :: string
  intent :: json
  rephrased_prompt :: json
  relevant_schemas :: string
  sql_query :: "json option"
  results :: string
  final_response :: "string option"
  error_msg :: "string option"
  analysis :: json
  analysis_action :: "string option"
  retry_count :: "nat option"
  messages :: "message list option"

text \<open>A query result: \<^verbatim>\<open>pandas.DataFrame\<close>, as far as the nodes look at it.\<close>

record dataframe =
  df_columns :: "string list"
  df_rows :: "string list list"

definition df_len :: "dataframe \<Rightarrow> nat" where
  \<comment> \<open>\<^verbatim>\<open>len(df)\<close>: the number of rows\<close>
  "df_len df = length (df_rows df)"

definition df_empty :: "dataframe \<Rightarrow> bool" where
  \<comment> \<open>\<^verbatim>\<open>df.empty\<close>: some axis has length zero\<close>
  "df_empty df = (df_columns df = [] \<or> df_rows df = [])"

definition df_head :: "nat \<Rightarrow> dataframe \<Rightarrow> dataframe" where
  \<comment> \<open>\<^verbatim>\<open>df.head(n)\<close>\<close>
  "df_head n df = df\<lparr>df_rows := take n (df_rows df)\<rparr>"

text \<open>What the BigQuery library raises, as \<^verbatim>\<open>execute_query\<close> tells the cases apart.\<close>

datatype bq_exn = BadRequest string | GoogleAPICallError string | OtherError string

text \<open>
  The effects of a turn on the outside: the prompts sent to the language model, the
  queries sent to the warehouse and the pauses slept, each in order.
\<close>

record world =
  llm_log :: "string list"
  bq_log :: "json list"
  slept :: "nat list"

text \<open>
  What the workflow is given from outside the repository. A call that can raise returns
  \<open>Inl\<close> of the exception's text. The language model and the warehouse are asked with the
  number of earlier calls, so that any sequence of replies is some \<open>llm_invoke\<close> and some
  \<open>client_query\<close>. The four prompt fields stand for the templates loaded from blob
  storage, rendered by \<^verbatim>\<open>str.format\<close>. \<open>lower_text\<close> is \<^verbatim>\<open>str.lower\<close> with the case
  tables of the interpreter. \<open>step_limit\<close> is the number of steps the graph library runs
  before it raises \<^verbatim>\<open>GraphRecursionError\<close>; \<^verbatim>\<open>app.invoke\<close> is called without a
  configuration, so it is the library's own limit, 25.
\<close>

record env =
  llm_invoke :: "nat \<Rightarrow> string \<Rightarrow> string + string"
  client_query :: "nat \<Rightarrow> json \<Rightarrow> bq_exn + dataframe"
  to_markdown :: "dataframe \<Rightarrow> string + string"
  classify_prompt :: "string \<Rightarrow> string \<Rightarrow> string + string"
  general_response_prompt :: "string \<Rightarrow> string \<Rightarrow> string + string"
  sql_gen_prompt :: "json \<Rightarrow> string \<Rightarrow> string + string"
  error_analysis_prompt :: "string \<Rightarrow> json \<Rightarrow> string + string"
  SCHEMAS :: string
  max_retries :: int
  recursion_limit :: nat
  lower_text :: "string \<Rightarrow> string"
  step_limit :: nat

definition llm_call :: "env \<Rightarrow> world \<Rightarrow> string \<Rightarrow> world \<times> (string + string)" where
  \<comment> \<open>\<^verbatim>\<open>llm.invoke(prompt).content\<close>\<close>
  "llm_call e w prompt =
     (w\<lparr>llm_log := llm_log w @ [prompt]\<rparr>, llm_invoke e (length (llm_log w)) prompt)"

definition execute_query :: "env \<Rightarrow> world \<Rightarrow> json \<Rightarrow> world \<times> (string + dataframe)" where
  \<comment> \<open>\<^verbatim>\<open>BigQueryClient.execute_query\<close>\<close>
  "execute_query e w sql =
     (w\<lparr>bq_log := bq_log w @ [sql]\<rparr>,
      case client_query e (length (bq_log w)) sql of
        Inr df \<Rightarrow> Inr df
      | Inl (BadRequest m) \<Rightarrow> Inl (''Invalid SQL: '' @ m)
      | Inl (GoogleAPICallError m) \<Rightarrow> Inl (''BigQuery API error: '' @ m)
      | Inl (OtherError m) \<Rightarrow> Inl (''Unexpected error: '' @ m))"

section \<open>Retry policy\<close>

definition backoff_delay :: "nat \<Rightarrow> nat" where
  "backoff_delay n = min (2 ^ n) 16"

definition exponential_backoff :: "nat \<Rightarrow> world \<Rightarrow> world" where
  \<comment> \<open>\<^verbatim>\<open>time.sleep(delay)\<close>\<close>
  "exponential_backoff n w = w\<lparr>slept := slept w @ [backoff_delay n]\<rparr>"

section \<open>The execute step\<close>

definition get_retry_count :: "AgentState \<Rightarrow> nat" where
  \<comment> \<open>\<^verbatim>\<open>state.get("retry_count", 0)\<close>\<close>
  "get_retry_count s = (case retry_count s of None \<Rightarrow> 0 | Some n \<Rightarrow> n)"

definition execute_failed :: "string \<Rightarrow> AgentState \<Rightarrow> AgentState" where
  \<comment> \<open>the \<^verbatim>\<open>except\<close> branch of \<^verbatim>\<open>execute_sql\<close>\<close>
  "execute_failed msg s = s\<lparr>error_msg := Some msg, retry_count := Some (get_retry_count s + 1)\<rparr>"

definition execute_succeeded :: "string \<Rightarrow> AgentState \<Rightarrow> AgentState" where
  "execute_succeeded res s =
     s\<lparr>results := res,
       final_response := Some (''Results for '' @ [CHR 0x27] @ user_prompt s @ [CHR 0x27] @ '':''
                               @ [CHR 0x0A] @ res),
       error_msg := Some []\<rparr>"

definition execute_sql :: "env \<Rightarrow> world \<times> AgentState \<Rightarrow> world \<times> AgentState" where
  \<comment> \<open>\<^verbatim>\<open>execute_query\<close> returns a data frame or raises, so \<^verbatim>\<open>df is not None\<close> holds\<close>
  "execute_sql e ws =
     (case ws of (w, s) \<Rightarrow>
        (case sql_query s of
           None \<Rightarrow> (w, s\<lparr>error_msg := Some ''No SQL query to execute''\<rparr>)
         | Some sql \<Rightarrow>
             if \<not> truthy sql then (w, s\<lparr>error_msg := Some ''No SQL query to execute''\<rparr>)
             else
               (case execute_query e w sql of
                  (w', Inl msg) \<Rightarrow> (w', execute_failed msg s)
                | (w', Inr df) \<Rightarrow>
                    if \<not> df_empty df then
                      (if df_len df > 100 then
                         (case to_markdown e (df_head 100 df) of
                            Inl msg \<Rightarrow> (w', execute_failed msg s)
                          | Inr md \<Rightarrow>
                              (w', execute_succeeded
                                     (md @ [CHR 0x0A, CHR 0x0A] @ ''(Showing first 100 rows of ''
                                         @ str_nat (df_len df) @ '' total)'') s))
                       else
                         (case to_markdown e df of
                            Inl msg \<Rightarrow> (w', execute_failed msg s)
                          | Inr md \<Rightarrow> (w', execute_succeeded md s)))
                    else
                      (w', s\<lparr>results := ''No data found'',
                             final_response := Some ''No data found matching your query.'',
                             error_msg := Some []\<rparr>))))"

section \<open>The other steps\<close>

definition get_messages :: "AgentState \<Rightarrow> message list" where
  \<comment> \<open>\<^verbatim>\<open>state.get("messages", [])\<close>\<close>
  "get_messages s = (case messages s of None \<Rightarrow> [] | Some ms \<Rightarrow> ms)"

definition history_str :: "message list \<Rightarrow> string" where
  "history_str ms =
     join [CHR 0x0A]
       (map (\<lambda>m. ''User: '' @ user_text m @ [CHR 0x0A] @ ''Bot: '' @ bot_text m) ms)"

definition classify_failed :: "AgentState \<Rightarrow> AgentState" where
  \<comment> \<open>the \<^verbatim>\<open>except\<close> branch of \<^verbatim>\<open>classify_intent\<close>\<close>
  "classify_failed s = s\<lparr>intent := JStr ''general'', rephrased_prompt := JStr (user_prompt s)\<rparr>"

definition classify_intent :: "env \<Rightarrow> world \<times> AgentState \<Rightarrow> world \<times> AgentState" where
  "classify_intent e ws =
     (case ws of (w, s) \<Rightarrow>
        (case classify_prompt e (history_str (get_messages s)) (user_prompt s) of
           Inl msg \<Rightarrow> (w, classify_failed s)
         | Inr prompt \<Rightarrow>
             (case llm_call e w prompt of
                (w', Inl msg) \<Rightarrow> (w', classify_failed s)
              | (w', Inr response) \<Rightarrow>
                  (case parse_json_response (recursion_limit e) response of
                     JObj parsed \<Rightarrow>
                       (w', s\<lparr>intent := (case dict_get parsed ''intent'' of
                                           None \<Rightarrow> JStr ''general'' | Some v \<Rightarrow> v),
                              rephrased_prompt := (case dict_get parsed ''rephrased'' of
                                           None \<Rightarrow> JStr (user_prompt s) | Some v \<Rightarrow> v)\<rparr>)
                   | _ \<Rightarrow> (w', classify_failed s)))))"

definition general_fallback :: "env \<Rightarrow> AgentState \<Rightarrow> AgentState" where
  \<comment> \<open>the \<^verbatim>\<open>except\<close> branch of \<^verbatim>\<open>general_response\<close>\<close>
  "general_fallback e s =
     (if list_ex (\<lambda>greeting. contains greeting (lower_text e (user_prompt s)))
           [''hi'', ''hello'', ''hey'']
      then s\<lparr>final_response := Some (''Hello! I'' @ [CHR 0x27] @ ''m your H&M data assistant. ''
                @ ''How can I help you with incident or problem data today?'')\<rparr>
      else s\<lparr>final_response := Some (''I can help you query and analyze your H&M incident ''
                @ ''and problem data. What would you like to know?'')\<rparr>)"

definition general_response :: "env \<Rightarrow> world \<times> AgentState \<Rightarrow> world \<times> AgentState" where
  "general_response e ws =
     (case ws of (w, s) \<Rightarrow>
        (case general_response_prompt e (history_str (get_messages s)) (user_prompt s) of
           Inl msg \<Rightarrow> (w, general_fallback e s)
         | Inr prompt \<Rightarrow>
             (case llm_call e w prompt of
                (w', Inl msg) \<Rightarrow> (w', general_fallback e s)
              | (w', Inr response) \<Rightarrow> (w', s\<lparr>final_response := Some response\<rparr>))))"

definition retrieve_schemas :: "env \<Rightarrow> world \<times> AgentState \<Rightarrow> world \<times> AgentState" where
  "retrieve_schemas e ws = (case ws of (w, s) \<Rightarrow> (w, s\<lparr>relevant_schemas := SCHEMAS e\<rparr>))"

definition item :: "'a list \<Rightarrow> nat \<Rightarrow> string + 'a" where
  \<comment> \<open>\<^verbatim>\<open>xs[i]\<close>, which raises out of range\<close>
  "item xs i = (if i < length xs then Inr (xs ! i) else Inl ''list index out of range'')"

definition fence :: string where
  \<comment> \<open>the three backquotes of a code fence\<close>
  "fence = [CHR 0x60, CHR 0x60, CHR 0x60]"

definition clean_sql :: "string \<Rightarrow> string + string" where
  \<comment> \<open>the clean-up of the reply in \<^verbatim>\<open>generate_sql\<close>\<close>
  "clean_sql response =
     (let sql = strip response
      in if contains (fence @ ''sql'') sql then
           (case item (split sql (fence @ ''sql'')) 1 of
              Inl msg \<Rightarrow> Inl msg
            | Inr rest \<Rightarrow>
                (case item (split rest fence) 0 of
                   Inl msg \<Rightarrow> Inl msg
                 | Inr body \<Rightarrow> Inr (strip body)))
         else if contains fence sql then
           (case item (split sql fence) 1 of
              Inl msg \<Rightarrow> Inl msg
            | Inr body \<Rightarrow> Inr (strip body))
         else Inr sql)"

definition generate_failed :: "string \<Rightarrow> AgentState \<Rightarrow> AgentState" where
  \<comment> \<open>the \<^verbatim>\<open>except\<close> branch of \<^verbatim>\<open>generate_sql\<close>\<close>
  "generate_failed msg s = s\<lparr>error_msg := Some (''Failed to generate SQL query: '' @ msg)\<rparr>"

definition generate_sql :: "env \<Rightarrow> world \<times> AgentState \<Rightarrow> world \<times> AgentState" where
  "generate_sql e ws =
     (case ws of (w, s) \<Rightarrow>
        (case sql_gen_prompt e (rephrased_prompt s) (relevant_schemas s) of
           Inl msg \<Rightarrow> (w, generate_failed msg s)
         | Inr prompt \<Rightarrow>
             (case llm_call e w prompt of
                (w', Inl msg) \<Rightarrow> (w', generate_failed msg s)
              | (w', Inr response) \<Rightarrow>
                  (case clean_sql response of
                     Inl msg \<Rightarrow> (w', generate_failed msg s)
                   | Inr q \<Rightarrow> (w', s\<lparr>sql_query := Some (JStr q)\<rparr>)))))"

definition analyzer_failed :: "string \<Rightarrow> AgentState \<Rightarrow> AgentState" where
  \<comment> \<open>the \<^verbatim>\<open>except\<close> branch of \<^verbatim>\<open>error_analyzer\<close>\<close>
  "analyzer_failed em s =
     s\<lparr>analysis_action := Some ''fail'',
       final_response := Some (''An unexpected error occurred: '' @ em)\<rparr>"

definition apply_analysis ::
  "(string \<times> json) list \<Rightarrow> string \<Rightarrow> world \<times> AgentState \<Rightarrow> world \<times> AgentState" where
  \<comment> \<open>\<^verbatim>\<open>error_analyzer\<close> from the parsed reply on\<close>
  "apply_analysis parsed em ws =
     (case ws of (w, s) \<Rightarrow>
        (let s1 = s\<lparr>analysis := (case dict_get parsed ''analysis'' of
                                    None \<Rightarrow> JStr [] | Some v \<Rightarrow> v)\<rparr>;
             action = (case dict_get parsed ''action'' of None \<Rightarrow> JStr ''fail'' | Some v \<Rightarrow> v)
         in if action = JStr ''retry'' then
              (let s2 = s1\<lparr>analysis_action := Some ''retry''\<rparr>;
                   s3 = (case dict_get parsed ''suggested_sql'' of
                           None \<Rightarrow> s2 | Some v \<Rightarrow> s2\<lparr>sql_query := Some v\<rparr>)
               in case retry_count s3 of
                    None \<Rightarrow> (w, analyzer_failed em s3)
                  | Some n \<Rightarrow> (exponential_backoff n w, s3))
            else if action = JStr ''rephrase'' then
              (w, s1\<lparr>analysis_action := Some ''rephrase''\<rparr>)
            else if action = JStr ''ask_user'' then
              (w, s1\<lparr>analysis_action := Some ''ask_user'',
                     final_response := Some (''Error: '' @ em
                        @ ''. Could you please clarify your question?'')\<rparr>)
            else
              (w, s1\<lparr>analysis_action := Some ''fail'',
                     final_response := Some (''Unable to process your request: '' @ em)\<rparr>)))"

definition error_analyzer :: "env \<Rightarrow> world \<times> AgentState \<Rightarrow> world \<times> AgentState" where
  "error_analyzer e ws =
     (case ws of (w, s) \<Rightarrow>
        (case error_msg s of
           None \<Rightarrow> (w, s\<lparr>analysis_action := Some ''end''\<rparr>)
         | Some em \<Rightarrow>
             if em = [] then (w, s\<lparr>analysis_action := Some ''end''\<rparr>)
             else if max_retries e \<le> int (get_retry_count s) then
               (w, s\<lparr>analysis_action := Some ''fail'',
                      final_response := Some (''Failed after '' @ str_int (max_retries e)
                         @ '' attempts: '' @ em)\<rparr>)
             else
               (case sql_query s of
                  None \<Rightarrow> (w, analyzer_failed em s)
                | Some q \<Rightarrow>
                    (case error_analysis_prompt e em q of
                       Inl msg \<Rightarrow> (w, analyzer_failed em s)
                     | Inr prompt \<Rightarrow>
                         (case llm_call e w prompt of
                            (w', Inl msg) \<Rightarrow> (w', analyzer_failed em s)
                          | (w', Inr response) \<Rightarrow>
                              (case parse_json_response (recursion_limit e) response of
                                 JObj parsed \<Rightarrow> apply_analysis parsed em (w', s)
                               | _ \<Rightarrow> (w', analyzer_failed em s)))))))"

definition update_history :: "env \<Rightarrow> world \<times> AgentState \<Rightarrow> world \<times> AgentState" where
  "update_history e ws =
     (case ws of (w, s) \<Rightarrow>
        (w, s\<lparr>messages := Some (get_messages s @
               [\<lparr>user_text = user_prompt s,
                 bot_text = (case final_response s of
                               None \<Rightarrow> ''No response generated'' | Some r \<Rightarrow> r)\<rparr>])\<rparr>))"

section \<open>The workflow graph\<close>

text \<open>
  The graph of \<^verbatim>\<open>AgentFactory.build_graph_with_nodes\<close>, run as the graph library runs it.
  A conditional edge takes the value its function returns, or each member when the value
  is a list, and looks it up in the mapping given with the edge: a key that is not there
  raises \<^verbatim>\<open>KeyError\<close>, a key that cannot be hashed (a list or a dictionary) raises
  \<^verbatim>\<open>TypeError\<close>. The nodes found run in the next step, each once. Without a node to run
  the graph ends with the state it has. Two different nodes run in one step from the same
  state and each writes every key of the state, which the library refuses with
  \<^verbatim>\<open>InvalidUpdateError\<close>. When a node is due after \<open>step_limit\<close> steps the library raises
  \<^verbatim>\<open>GraphRecursionError\<close>. An exception ends the run and leaves the effects made so far.
\<close>

datatype node =
  Classify | General | Retrieve | Generate_sql | Execute | Error_analyzer | Update_history

datatype graph_exn = KeyError json | TypeError | InvalidUpdateError | GraphRecursionError

fun run_node :: "env \<Rightarrow> node \<Rightarrow> world \<times> AgentState \<Rightarrow> world \<times> AgentState" where
  "run_node e Classify = classify_intent e"
| "run_node e General = general_response e"
| "run_node e Retrieve = retrieve_schemas e"
| "run_node e Generate_sql = generate_sql e"
| "run_node e Execute = execute_sql e"
| "run_node e Error_analyzer = error_analyzer e"
| "run_node e Update_history = update_history e"

fun classify_ends :: "json \<Rightarrow> graph_exn + node" where
  \<comment> \<open>the mapping of the edge after \<^verbatim>\<open>classify\<close>\<close>
  "classify_ends (JStr k) =
     (if k = ''greeting'' \<or> k = ''general'' then Inr General
      else if k = ''data_query'' then Inr Retrieve
      else Inl (KeyError (JStr k)))"
| "classify_ends (JArr xs) = Inl TypeError"
| "classify_ends (JObj kvs) = Inl TypeError"
| "classify_ends v = Inl (KeyError v)"

definition analyzer_ends :: "string \<Rightarrow> graph_exn + node" where
  \<comment> \<open>the mapping of the edge after \<^verbatim>\<open>error_analyzer\<close>\<close>
  "analyzer_ends k =
     (if k = ''retry'' \<or> k = ''rephrase'' then Inr Generate_sql
      else if k = ''fail'' \<or> k = ''ask_user'' \<or> k = ''end'' then Inr Update_history
      else Inl (KeyError (JStr k)))"

fun lookup_all :: "('a \<Rightarrow> graph_exn + node) \<Rightarrow> 'a list \<Rightarrow> graph_exn + node list" where
  \<comment> \<open>the nodes of the keys, or the exception of the first key that has none\<close>
  "lookup_all ends [] = Inr []"
| "lookup_all ends (k # ks) =
     (case ends k of
        Inl exn \<Rightarrow> Inl exn
      | Inr n \<Rightarrow> (case lookup_all ends ks of Inl exn \<Rightarrow> Inl exn | Inr ns \<Rightarrow> Inr (n # ns)))"

fun next_nodes :: "node \<Rightarrow> AgentState \<Rightarrow> graph_exn + node list" where
  "next_nodes Classify s =
     (case intent s of
        JArr keys \<Rightarrow> lookup_all classify_ends keys
      | key \<Rightarrow> lookup_all classify_ends [key])"
| "next_nodes General s = Inr [Update_history]"
| "next_nodes Retrieve s = Inr [Generate_sql]"
| "next_nodes Generate_sql s = Inr [Execute]"
| "next_nodes Execute s = Inr [Error_analyzer]"
| "next_nodes Error_analyzer s =
     lookup_all analyzer_ends [case analysis_action s of None \<Rightarrow> ''end'' | Some a \<Rightarrow> a]"
| "next_nodes Update_history s = Inr []"

fun run_from ::
  "nat \<Rightarrow> env \<Rightarrow> node \<Rightarrow> world \<times> AgentState \<Rightarrow> world \<times> (graph_exn + AgentState)" where
  \<comment> \<open>the run from a node that is due, with the number of steps left\<close>
  "run_from 0 e n ws = (fst ws, Inl GraphRecursionError)"
| "run_from (Suc left) e n ws =
     (let ws' = run_node e n ws
      in case next_nodes n (snd ws') of
           Inl exn \<Rightarrow> (fst ws', Inl exn)
         | Inr ns \<Rightarrow>
             (case remdups ns of
                [] \<Rightarrow> (fst ws', Inr (snd ws'))
              | [n'] \<Rightarrow> run_from left e n' ws'
              | n1 # n2 # others \<Rightarrow>
                  (case left of
                     0 \<Rightarrow> (fst ws', Inl GraphRecursionError)
                   | Suc left' \<Rightarrow>
                       (foldl (\<lambda>w m. fst (run_node e m (w, snd ws'))) (fst ws')
                          (n1 # n2 # others),
                        Inl InvalidUpdateError))))"

definition invoke :: "env \<Rightarrow> world \<times> AgentState \<Rightarrow> world \<times> (graph_exn + AgentState)" where
  \<comment> \<open>\<^verbatim>\<open>app.invoke(state)\<close>: the entry point is \<^verbatim>\<open>classify\<close>\<close>
  "invoke e ws = run_from (step_limit e) e Classify ws"

section \<open>The assistant\<close>

text \<open>
  \<^verbatim>\<open>DataAssistant\<close> of \<^verbatim>\<open>app.py\<close> with its in-memory stores. Saving to blob storage is
  wrapped in \<^verbatim>\<open>try\<close> and changes none of them; loading a user's conversations from blob
  storage never raises and is the field \<open>blob_conversations\<close>.
\<close>

record conversation_entry =
  ce_user_query :: string
  ce_sql_query :: json
  ce_response :: string
  ce_timestamp :: string

record feedback_entry =
  fb_query :: string
  fb_feedback :: string
  fb_comments :: string
  fb_timestamp :: string

record assistant =
  user_conversation_histories :: "string \<rightharpoonup> (string \<times> string) list"
  conversation_data_db :: "conversation_entry list"
  feedback_and_comments :: "string \<rightharpoonup> feedback_entry list"
  use_blob_sessions :: bool
  blob_conversations :: "string \<Rightarrow> (string \<times> string) list"

record query_result =
  qr_user_input :: string
  qr_generated_sql_query :: json
  qr_model_response :: string
  qr_intent :: "json option"
  qr_success :: bool
  qr_error :: "graph_exn option"

definition last3 :: "'a list \<Rightarrow> 'a list" where
  \<comment> \<open>\<^verbatim>\<open>xs[-3:]\<close>\<close>
  "last3 xs = drop (length xs - 3) xs"

definition as_message :: "string \<times> string \<Rightarrow> message" where
  "as_message qa = \<lparr>user_text = fst qa, bot_text = snd qa\<rparr>"

definition create_initial_state :: "assistant \<Rightarrow> string \<Rightarrow> string option \<Rightarrow> AgentState" where
  "create_initial_state a prompt user_id =
     (let loaded =
            (case user_id of
               None \<Rightarrow> []
             | Some uid \<Rightarrow>
                 if uid = [] then []
                 else
                   (let from_blob = (if use_blob_sessions a
                                     then map as_message (last3 (blob_conversations a uid))
                                     else [])
                    in if from_blob = [] then
                         (case user_conversation_histories a uid of
                            None \<Rightarrow> []
                          | Some history \<Rightarrow> map as_message (last3 history))
                       else from_blob))
      in \<lparr>user_prompt = prompt, intent = JStr [], rephrased_prompt = JStr [],
          relevant_schemas = [], sql_query = Some (JStr []), results = [],
          final_response = Some [], error_msg = Some [], analysis = JStr [],
          analysis_action = Some [], retry_count = Some 0, messages = Some loaded\<rparr>)"

definition remember :: "assistant \<Rightarrow> string option \<Rightarrow> string \<Rightarrow> string \<Rightarrow> assistant" where
  \<comment> \<open>the update of the user's in-memory history in \<^verbatim>\<open>process_query\<close>\<close>
  "remember a user_id question answer =
     (case user_id of
        None \<Rightarrow> a
      | Some uid \<Rightarrow>
          if uid = [] then a
          else a\<lparr>user_conversation_histories := (user_conversation_histories a)
                   (uid \<mapsto> (case user_conversation_histories a uid of
                                None \<Rightarrow> [] | Some h \<Rightarrow> h) @ [(question, answer)])\<rparr>)"

definition process_query ::
  "env \<Rightarrow> string \<Rightarrow> assistant \<times> world \<Rightarrow> string \<Rightarrow> string option
     \<Rightarrow> (assistant \<times> world) \<times> query_result" where
  \<comment> \<open>the second argument is the time stamp of \<^verbatim>\<open>datetime.now()\<close>; the reply's \<^verbatim>\<open>error\<close>
      is the text of the exception in \<open>qr_error\<close>\<close>
  "process_query e now aw user_input user_id =
     (case aw of (a, w) \<Rightarrow>
        (case invoke e (w, create_initial_state a user_input user_id) of
           (w', Inr result) \<Rightarrow>
             (let answer = (case final_response result of
                              None \<Rightarrow> ''Sorry, I couldn'' @ [CHR 0x27] @ ''t process your request.''
                            | Some r \<Rightarrow> r);
                  sql = (case sql_query result of
                           None \<Rightarrow> JStr ''No SQL generated'' | Some q \<Rightarrow> q);
                  a' = a\<lparr>conversation_data_db := conversation_data_db a @
                          [\<lparr>ce_user_query = user_input, ce_sql_query = sql,
                            ce_response = answer, ce_timestamp = now\<rparr>]\<rparr>
              in ((remember a' user_id user_input answer, w'),
                  \<lparr>qr_user_input = user_input, qr_generated_sql_query = sql,
                   qr_model_response = answer, qr_intent = Some (intent result),
                   qr_success = True, qr_error = None\<rparr>))
         | (w', Inl exn) \<Rightarrow>
             ((a\<lparr>conversation_data_db := conversation_data_db a @
                  [\<lparr>ce_user_query = user_input, ce_sql_query = JStr ''Error occurred'',
                    ce_response = ''I encountered an error while processing your request. ''
                       @ ''Please try again.'',
                    ce_timestamp = now\<rparr>]\<rparr>, w'),
              \<lparr>qr_user_input = user_input,
               qr_generated_sql_query = JStr ''Error occurred'',
               qr_model_response = ''I encountered an error while processing your request. ''
                  @ ''Please try again.'',
               qr_intent = None, qr_success = False, qr_error = Some exn\<rparr>)))"

definition the_entries :: "assistant \<Rightarrow> string \<Rightarrow> feedback_entry list" where
  \<comment> \<open>the user's list of entries, created empty on first use\<close>
  "the_entries a uid = (case feedback_and_comments a uid of None \<Rightarrow> [] | Some es \<Rightarrow> es)"

definition record_feedback :: "string \<Rightarrow> assistant \<Rightarrow> string \<Rightarrow> string \<Rightarrow> string \<Rightarrow> assistant" where
  \<comment> \<open>the first argument is the time stamp\<close>
  "record_feedback now a uid user_query feedback_type =
     a\<lparr>feedback_and_comments := (feedback_and_comments a)
         (uid \<mapsto> the_entries a uid @
            [\<lparr>fb_query = user_query,
              fb_feedback = (if feedback_type \<noteq> [] then feedback_type
                             else ''user did not provide feedback like or dislike''),
              fb_comments = ''user did not provide comments'',
              fb_timestamp = now\<rparr>])\<rparr>"

fun attach_comment :: "string \<Rightarrow> string \<Rightarrow> feedback_entry list \<Rightarrow> feedback_entry list option" where
  \<comment> \<open>the \<^verbatim>\<open>for\<close> loop of \<^verbatim>\<open>record_comment\<close>: \<open>None\<close> when it ends without \<^verbatim>\<open>break\<close>\<close>
  "attach_comment user_query c [] = None"
| "attach_comment user_query c (en # es) =
     (if fb_query en = user_query then Some (en\<lparr>fb_comments := c\<rparr> # es)
      else map_option ((#) en) (attach_comment user_query c es))"

definition record_comment :: "string \<Rightarrow> assistant \<Rightarrow> string \<Rightarrow> string \<Rightarrow> string \<Rightarrow> assistant" where
  "record_comment now a uid user_query comment =
     (let c = (if comment \<noteq> [] then comment else ''user did not provide comments'')
      in a\<lparr>feedback_and_comments := (feedback_and_comments a)
            (uid \<mapsto> (case attach_comment user_query c (the_entries a uid) of
                        Some es \<Rightarrow> es
                      | None \<Rightarrow> the_entries a uid @
                          [\<lparr>fb_query = user_query,
                            fb_feedback = ''user did not provide feedback like or dislike'',
                            fb_comments = c, fb_timestamp = now\<rparr>]))\<rparr>)"

section \<open>A scripted surrounding\<close>

text \<open>
  A surrounding whose language model and warehouse answer from fixed lists, call by call,
  for running a turn on concrete inputs.
\<close>

definition render_rows :: "dataframe \<Rightarrow> string" where
  "render_rows df = join [CHR 0x0A] (map (join ''|'') (df_columns df # df_rows df))"

definition scripted_env ::
  "(string + string) list \<Rightarrow> (bq_exn + dataframe) list \<Rightarrow> int \<Rightarrow> env" where
  "scripted_env replies tables limit =
     \<lparr>llm_invoke = (\<lambda>i p. if i < length replies then replies ! i else Inl ''no reply''),
      client_query = (\<lambda>i q. if i < length tables then tables ! i else Inl (OtherError ''no table'')),
      to_markdown = (\<lambda>df. Inr (render_rows df)),
      classify_prompt = (\<lambda>h p. Inr (''classify: '' @ p)),
      general_response_prompt = (\<lambda>h p. Inr (''answer: '' @ p)),
      sql_gen_prompt = (\<lambda>r sch. Inr ''write sql''),
      error_analysis_prompt = (\<lambda>m q. Inr (''diagnose: '' @ m)),
      SCHEMAS = ''incident(number, priority)'',
      max_retries = limit,
      recursion_limit = 1000,
      lower_text = lower_ascii,
      step_limit = 25\<rparr>"

definition world0 :: world where
  "world0 = \<lparr>llm_log = [], bq_log = [], slept = []\<rparr>"

definition state_with_sql :: "string \<Rightarrow> string \<Rightarrow> AgentState" where
  \<comment> \<open>a Run State on its way into the execute step\<close>
  "state_with_sql p q =
     \<lparr>user_prompt = p, intent = JStr ''data_query'', rephrased_prompt = JStr p,
      relevant_schemas = ''incident(number, priority)'', sql_query = Some (JStr q), results = [],
      final_response = Some [], error_msg = Some [], analysis = JStr [],
      analysis_action = Some [], retry_count = Some 0, messages = Some []\<rparr>"

definition assistant0 :: assistant where
  "assistant0 = \<lparr>user_conversation_histories = Map.empty, conversation_data_db = [],
      feedback_and_comments = Map.empty, use_blob_sessions = False,
      blob_conversations = (\<lambda>uid. [])\<rparr>"

text \<open>A Run State whose query has failed once, and a language model that proposes a retry.\<close>

definition failed_state :: AgentState where
  "failed_state = (state_with_sql ''open incidents'' ''SELECT nmber FROM incident'')
       \<lparr>error_msg := Some ''Invalid SQL: nmber'', retry_count := Some 1\<rparr>"

definition retry_env :: env where
  \<open>retry_env = scripted_env
      [Inr ''{"action": "retry", "suggested_sql": "SELECT 1"}'', Inr ''SELECT number FROM incident'']
      [Inr \<lparr>df_columns = [''number''], df_rows = []\<rparr>] 3\<close>

text \<open>
  A language model that classifies every prompt as a data query, answers the request for
  SQL with the empty text and answers every diagnosis with "retry".
\<close>

definition stuck_env :: "nat \<Rightarrow> env" where
  \<comment> \<open>the argument is the step limit of the graph library\<close>
  \<open>stuck_env limit = (scripted_env [] [] 3)
     \<lparr>step_limit := limit,
      llm_invoke := (\<lambda>i p. if starts_with ''classify'' p then Inr ''{"intent": "data_query"}''
                           else if p = ''write sql'' then Inr ''''
                           else Inr ''{"action": "retry"}'')\<rparr>\<close>

definition no_sql :: "AgentState \<Rightarrow> bool" where
  "no_sql s = (sql_query s = Some (JStr []) \<and> retry_count s = Some 0)"

definition retry_cycle :: "env \<Rightarrow> world \<times> AgentState \<Rightarrow> world \<times> AgentState" where
  \<comment> \<open>one passage from \<^verbatim>\<open>generate_sql\<close> through \<^verbatim>\<open>execute\<close> to \<^verbatim>\<open>error_analyzer\<close>\<close>
  "retry_cycle e ws = error_analyzer e (execute_sql e (generate_sql e ws))"

definition stuck_entry :: "nat \<Rightarrow> world \<times> AgentState" where
  \<comment> \<open>the turn "count incidents" as it first comes to \<^verbatim>\<open>generate_sql\<close>\<close>
  "stuck_entry limit =
     retrieve_schemas (stuck_env limit)
       (classify_intent (stuck_env limit)
          (world0, create_initial_state assistant0 ''count incidents'' None))"

section \<open>Properties of the retry policy\<close>

text \<open>
  C5. The pause slept before a retry is \<open>min (2 ^ n) 16\<close> for every retry count \<open>n\<close>: it is
  1, 2, 4, 8 and 16 for the counts 0 to 4, it is 16 for every count from 4 on, and it is the
  one pause \<^verbatim>\<open>exponential_backoff\<close> adds to those slept.
\<close>

theorem backoff_delay_values:
  "backoff_delay 0 = 1 \<and> backoff_delay 1 = 2 \<and> backoff_delay 2 = 4 \<and> backoff_delay 3 = 8
   \<and> backoff_delay 4 = 16 \<and> backoff_delay (4 + k) = 16
   \<and> backoff_delay n = min (2 ^ n) 16
   \<and> slept (exponential_backoff n w) = slept w @ [min (2 ^ n) 16]"
proof -
  have "(16::nat) \<le> 2 ^ (4 + k)"
    by (simp add: power_add)
  then have "backoff_delay (4 + k) = 16"
    by (simp add: backoff_delay_def min_def)
  then show ?thesis
    by (simp add: backoff_delay_def exponential_backoff_def)
qed

section \<open>Properties of the execute step\<close>

lemma str_nat_150: "str_nat 150 = ''150''"
  by code_simp

text \<open>
  C6. When the query runs and the result has no rows, \<^verbatim>\<open>execute_sql\<close> sets
  \<^verbatim>\<open>final_response\<close> to exactly "No data found matching your query." and \<^verbatim>\<open>error_msg\<close> to
  the empty text; the retry count is untouched and the query was sent once.
\<close>

theorem execute_sql_no_rows:
  assumes "sql_query s = Some sql" and "truthy sql"
    and "client_query e (length (bq_log w)) sql = Inr df" and "df_rows df = []"
  shows "final_response (snd (execute_sql e (w, s))) = Some ''No data found matching your query.''
    \<and> error_msg (snd (execute_sql e (w, s))) = Some []
    \<and> retry_count (snd (execute_sql e (w, s))) = retry_count s
    \<and> bq_log (fst (execute_sql e (w, s))) = bq_log w @ [sql]"
  using assms by (simp add: execute_sql_def execute_query_def df_empty_def)

theorem execute_sql_no_rows_witness:
  "final_response (snd (execute_sql
       (scripted_env [] [Inr \<lparr>df_columns = [''number''], df_rows = []\<rparr>] 3)
       (world0, state_with_sql ''open incidents'' ''SELECT number FROM incident'')))
     = Some ''No data found matching your query.''
   \<and> error_msg (snd (execute_sql
       (scripted_env [] [Inr \<lparr>df_columns = [''number''], df_rows = []\<rparr>] 3)
       (world0, state_with_sql ''open incidents'' ''SELECT number FROM incident''))) = Some []"
  using execute_sql_no_rows [of "state_with_sql ''open incidents'' ''SELECT number FROM incident''"
      "JStr ''SELECT number FROM incident''"
      "scripted_env [] [Inr \<lparr>df_columns = [''number''], df_rows = []\<rparr>] 3" world0
      "\<lparr>df_columns = [''number''], df_rows = []\<rparr>"]
  by (simp add: state_with_sql_def scripted_env_def world0_def)

text \<open>
  C4. When the query runs and the result has columns and more than 100 rows, \<^verbatim>\<open>execute_sql\<close>
  renders the first 100 rows only, appends the note with the true number of rows (for 150
  rows: "(Showing first 100 rows of 150 total)"), sets \<^verbatim>\<open>final_response\<close> to
  "Results for '<user prompt>':", a line break and the rendered text, and sets
  \<^verbatim>\<open>error_msg\<close> to the empty text.
\<close>

theorem execute_sql_truncates:
  assumes "sql_query s = Some sql" and "truthy sql"
    and "client_query e (length (bq_log w)) sql = Inr df"
    and "df_columns df \<noteq> []" and "100 < length (df_rows df)"
    and "to_markdown e (df_head 100 df) = Inr md"
  shows "df_rows (df_head 100 df) = take 100 (df_rows df)
    \<and> length (df_rows (df_head 100 df)) = 100
    \<and> results (snd (execute_sql e (w, s)))
        = md @ [CHR 0x0A, CHR 0x0A] @ ''(Showing first 100 rows of ''
             @ str_nat (length (df_rows df)) @ '' total)''
    \<and> (length (df_rows df) = 150 \<longrightarrow>
         results (snd (execute_sql e (w, s)))
           = md @ [CHR 0x0A, CHR 0x0A] @ ''(Showing first 100 rows of 150 total)'')
    \<and> final_response (snd (execute_sql e (w, s)))
        = Some (''Results for '' @ [CHR 0x27] @ user_prompt s @ [CHR 0x27] @ '':'' @ [CHR 0x0A]
                @ results (snd (execute_sql e (w, s))))
    \<and> error_msg (snd (execute_sql e (w, s))) = Some []"
proof -
  have ne: "\<not> df_empty df"
    using assms(4,5) by (auto simp: df_empty_def)
  have run: "execute_sql e (w, s)
      = (w\<lparr>bq_log := bq_log w @ [sql]\<rparr>,
         execute_succeeded (md @ [CHR 0x0A, CHR 0x0A] @ ''(Showing first 100 rows of ''
             @ str_nat (df_len df) @ '' total)'') s)"
    using assms ne by (simp add: execute_sql_def execute_query_def df_len_def)
  show ?thesis
    using assms(5) by (simp add: run execute_succeeded_def df_len_def df_head_def str_nat_150)
qed

theorem execute_sql_truncates_witness:
  "results (snd (execute_sql
       (scripted_env [] [Inr \<lparr>df_columns = [''number''], df_rows = replicate 150 [''INC1'']\<rparr>] 3)
       (world0, state_with_sql ''open incidents'' ''SELECT number FROM incident'')))
     = render_rows \<lparr>df_columns = [''number''], df_rows = replicate 100 [''INC1'']\<rparr>
         @ [CHR 0x0A, CHR 0x0A] @ ''(Showing first 100 rows of 150 total)''"
  using execute_sql_truncates [of "state_with_sql ''open incidents'' ''SELECT number FROM incident''"
      "JStr ''SELECT number FROM incident''"
      "scripted_env [] [Inr \<lparr>df_columns = [''number''], df_rows = replicate 150 [''INC1'']\<rparr>] 3"
      world0 "\<lparr>df_columns = [''number''], df_rows = replicate 150 [''INC1'']\<rparr>"
      "render_rows \<lparr>df_columns = [''number''], df_rows = replicate 100 [''INC1'']\<rparr>"]
  by (simp add: state_with_sql_def scripted_env_def world0_def df_head_def str_nat_150)

section \<open>Properties of the decoder\<close>

text \<open>
  Every value read takes at least one character of the text, so the bound on the members
  of an object or an array is never what ends the reading: with any bound from the length
  of the text on, the result is the same.
\<close>

lemma skip_ws_le: "length (skip_ws s) \<le> length s"
  by (simp add: skip_ws_def length_dropWhile_le)

lemma emit_Some: "emit bs r = Some (str, rest) \<Longrightarrow> \<exists>str'. r = Some (str', rest)"
  by (auto simp: emit_def split: option.splits)

lemma scanstring_step:
  assumes "scanstring (c # cs) = Some (str, rest)"
  shows "rest = cs \<or> (\<exists>t str'. scanstring t = Some (str', rest) \<and> length t \<le> length cs)"
proof -
  have A: "rest = cs \<or> (\<exists>t str'. scanstring t = Some (str', rest) \<and> length t \<le> length cs)"
    if "emit bs (scanstring t) = Some (str, rest)" and "length t \<le> length cs" for t bs
    using emit_Some [OF that(1)] that(2) by blast
  show ?thesis
  proof (cases "c = CHR 0x22")
    case True
    with assms show ?thesis by simp
  next
    case nq: False
    show ?thesis
    proof (cases "c = CHR 0x5C")
      case False
      with nq assms have "emit [c] (scanstring cs) = Some (str, rest)"
        by (simp split: if_splits)
      then show ?thesis by (rule A) simp
    next
      case True
      with nq assms obtain esc tl1 where cs: "cs = esc # tl1"
        by (cases cs) auto
      show ?thesis
      proof (cases "esc = CHR ''u''")
        case False
        with nq True cs assms obtain ch where "emit [ch] (scanstring tl1) = Some (str, rest)"
          by (auto split: option.splits)
        then show ?thesis by (rule A) (simp add: cs)
      next
        case u: True
        with nq True cs assms obtain c1 where c1: "decode_uXXXX (take 4 tl1) = Some c1"
          by (auto split: option.splits)
        from nq True cs u c1 assms
        consider "emit (utf8 c1) (scanstring (drop 4 tl1)) = Some (str, rest)"
          | c2 where "emit (utf8 (join_surrogates c1 c2)) (scanstring (drop 10 tl1)) = Some (str, rest)"
          by (auto simp del: starts_with.simps split: option.splits if_splits)
        then show ?thesis
        proof cases
          case 1
          then show ?thesis by (rule A) (simp add: cs)
        next
          case 2
          then show ?thesis by (rule A) (simp add: cs)
        qed
      qed
    qed
  qed
qed

lemma scanstring_shorter: "scanstring s = Some (str, rest) \<Longrightarrow> length rest < length s"
proof (induction "length s" arbitrary: s str rest rule: less_induct)
  case less
  from less.prems obtain c cs where s: "s = c # cs"
    by (cases s) auto
  from scanstring_step [of c cs str rest] less.prems s
  consider "rest = cs" | t str' where "scanstring t = Some (str', rest)" and "length t \<le> length cs"
    by blast
  then show ?case
  proof cases
    case 1
    with s show ?thesis by simp
  next
    case 2
    have "length t < length s"
      using 2(2) s by simp
    from less.hyps [OF this 2(1)] 2(2) s show ?thesis by simp
  qed
qed

lemma match_number_shorter: "match_number s = Inr (v, rest) \<Longrightarrow> length rest < length s"
proof -
  assume a: "match_number s = Inr (v, rest)"
  define neg where "neg = starts_with ''-'' s"
  define s1 where "s1 = (if neg then tl s else s)"
  define ip where "ip = (if starts_with ''0'' s1 then ''0'' else takeWhile is_digit s1)"
  define s2 where "s2 = drop (length ip) s1"
  define fp where "fp = (if starts_with ''.'' s2 then takeWhile is_digit (tl s2) else [])"
  define s3 where "s3 = (if fp = [] then s2 else drop (length fp + 1) s2)"
  define sgn where "sgn = (if starts_with ''e'' s3 \<or> starts_with ''E'' s3
                 then (if starts_with ''-'' (tl s3) \<or> starts_with ''+'' (tl s3)
                       then take 1 (tl s3) else [])
                 else [])"
  define ep where "ep = (if starts_with ''e'' s3 \<or> starts_with ''E'' s3
                then takeWhile is_digit (drop (length sgn + 1) s3) else [])"
  define s4 where "s4 = (if ep = [] then s3 else drop (length sgn + 1 + length ep) s3)"
  have eq: "match_number s =
      (if ip = [] then Inl JSONDecodeError
       else if fp = [] \<and> ep = [] then
         (if int_max_str_digits < length ip then Inl ValueError
          else Inr (JInt (if neg then - int (digits_val (ip @ fp))
                          else int (digits_val (ip @ fp))), s4))
       else Inr (JFloat (if neg then - int (digits_val (ip @ fp)) else int (digits_val (ip @ fp)))
                    ((if sgn = ''-'' then - int (digits_val ep) else int (digits_val ep))
                       - int (length fp)), s4))"
    unfolding match_number_def Let_def s4_def ep_def sgn_def s3_def fp_def s2_def ip_def s1_def neg_def
    by (rule refl)
  from a have ip: "ip \<noteq> []" and rest: "rest = s4"
    unfolding eq by (auto split: if_splits)
  have "length s4 \<le> length s3" by (simp add: s4_def)
  moreover have "length s3 \<le> length s2" by (simp add: s3_def)
  moreover have "length ip \<le> length s1"
    by (cases s1) (auto simp: ip_def intro: le_trans [OF length_takeWhile_le])
  then have "length s2 < length s1"
    using ip by (cases ip) (auto simp: s2_def)
  moreover have "length s1 \<le> length s" by (simp add: s1_def)
  ultimately show ?thesis using rest by simp
qed

lemma starts_with_single: "starts_with [c] s \<Longrightarrow> \<exists>t. s = c # t"
  by (cases s) auto


lemma scan_once_scalar_shorter:
  assumes "c \<noteq> CHR ''{''" and "c \<noteq> CHR ''[''" and "scan_once d (c # cs) = Inr (v, rest)"
  shows "length rest < length (c # cs)"
proof (cases "c = CHR 0x22")
  case True
  with assms(3) obtain str where "scanstring cs = Some (str, rest)"
    by (auto split: option.splits)
  from scanstring_shorter [OF this] show ?thesis by simp
next
  case False
  with assms match_number_shorter [of "c # cs" v rest] show ?thesis
    by (auto simp del: starts_with.simps split: if_splits)
qed

lemma members_shorter:
  assumes Q: "\<forall>s v rest. scan_once d s = Inr (v, rest) \<longrightarrow> length rest < length s"
  shows "JSONObject d n acc s = Inr (v, rest) \<Longrightarrow> length rest < length s"
    and "JSONArray d n arr s = Inr (v, rest) \<Longrightarrow> length rest < length s"
proof (induction n arbitrary: acc arr s)
  case 0
  {
    case 1
    then show ?case by simp
  next
    case 2
    then show ?case by simp
  }
next
  case (Suc n)
  {
    case 1
    from 1 obtain t where s: "s = CHR 0x22 # t"
      using starts_with_single [of "CHR 0x22" s] by (auto simp del: scan_once.simps split: if_splits)
    from 1 s obtain key s1 where k: "scanstring t = Some (key, s1)"
      by (auto simp del: scan_once.simps split: option.splits)
    from 1 s k obtain u where u: "skip_ws s1 = CHR '':'' # u"
      using starts_with_single [of "CHR '':''" "skip_ws s1"]
      by (auto simp del: scan_once.simps split: if_splits)
    from 1 s k u obtain v' s2 where v': "scan_once d (skip_ws u) = Inr (v', s2)"
      by (auto simp del: scan_once.simps split: sum.splits)
    have pv: "length s2 < length (skip_ws u)"
      using Q v' by blast
    have l: "length s2 < length s"
      using pv skip_ws_le [of u] skip_ws_le [of s1] u scanstring_shorter [OF k] s
      by (metis Suc_lessD length_Cons less_Suc_eq_le less_le_trans not_less_eq order_less_le_trans)
    show ?case
    proof (cases "starts_with ''}'' (skip_ws s2)")
      case True
      with 1 s k u v' have "rest = tl (skip_ws s2)"
        by (simp del: scan_once.simps)
      then show ?thesis
        using l skip_ws_le [of s2] by (simp add: le_less_trans [OF diff_le_self])
    next
      case False
      with 1 s k u v' have "JSONObject d n (acc @ [(key, v')]) (skip_ws (tl (skip_ws s2))) = Inr (v, rest)"
        by (simp del: scan_once.simps split: if_splits)
      from Suc.IH(1) [OF this] have "length rest < length (skip_ws (tl (skip_ws s2)))" .
      also have "\<dots> \<le> length s2"
        using skip_ws_le [of "tl (skip_ws s2)"] skip_ws_le [of s2] by simp
      finally show ?thesis using l by simp
    qed
  next
    case 2
    from 2 obtain v' s1 where v': "scan_once d s = Inr (v', s1)"
      by (auto simp del: scan_once.simps split: sum.splits)
    have l: "length s1 < length s" using Q v' by blast
    show ?case
    proof (cases "starts_with '']'' (skip_ws s1)")
      case True
      with 2 v' have "rest = tl (skip_ws s1)"
        by (simp del: scan_once.simps)
      then show ?thesis
        using l skip_ws_le [of s1] by (simp add: le_less_trans [OF diff_le_self])
    next
      case False
      with 2 v' have "JSONArray d n (arr @ [v']) (skip_ws (tl (skip_ws s1))) = Inr (v, rest)"
        by (simp del: scan_once.simps split: if_splits)
      from Suc.IH(2) [OF this] have "length rest < length (skip_ws (tl (skip_ws s1)))" .
      also have "\<dots> \<le> length s1"
        using skip_ws_le [of "tl (skip_ws s1)"] skip_ws_le [of s1] by simp
      finally show ?thesis using l by simp
    qed
  }
qed


lemma scan_once_shorter: "scan_once d s = Inr (v, rest) \<Longrightarrow> length rest < length s"
proof (induction d arbitrary: s v rest)
  case 0
  then obtain c cs where s: "s = c # cs" by (cases s) auto
  with 0 have "c \<noteq> CHR ''{''" and "c \<noteq> CHR ''[''"
    by (auto split: if_splits)
  from scan_once_scalar_shorter [OF this] 0 s show ?case by blast
next
  case (Suc d)
  have P: "\<forall>s v rest. scan_once d s = Inr (v, rest) \<longrightarrow> length rest < length s"
    using Suc.IH by blast
  from Suc.prems obtain c cs where s: "s = c # cs" by (cases s) auto
  consider "c = CHR ''{''" | "c = CHR ''[''" | "c \<noteq> CHR ''{''" "c \<noteq> CHR ''[''"
    by blast
  then show ?case
  proof cases
    case 1
    show ?thesis
    proof (cases "starts_with ''}'' (skip_ws cs)")
      case True
      with Suc.prems s 1 have "rest = tl (skip_ws cs)" by simp
      then show ?thesis using skip_ws_le [of cs] s by (simp add: le_less_trans [OF diff_le_self])
    next
      case False
      with Suc.prems s 1 have "JSONObject d (length cs) [] (skip_ws cs) = Inr (v, rest)" by simp
      from members_shorter(1) [OF P this] show ?thesis
        using skip_ws_le [of cs] s by simp
    qed
  next
    case 2
    show ?thesis
    proof (cases "starts_with '']'' (skip_ws cs)")
      case True
      with Suc.prems s 2 have "rest = tl (skip_ws cs)" by simp
      then show ?thesis using skip_ws_le [of cs] s by (simp add: le_less_trans [OF diff_le_self])
    next
      case False
      with Suc.prems s 2 have "JSONArray d (length cs) [] (skip_ws cs) = Inr (v, rest)" by simp
      from members_shorter(2) [OF P this] show ?thesis
        using skip_ws_le [of cs] s by simp
    qed
  next
    case 3
    from scan_once_scalar_shorter [OF this] Suc.prems s show ?thesis by blast
  qed
qed

lemma members_bound:
  shows "length s \<le> n \<Longrightarrow> length s \<le> m \<Longrightarrow> JSONObject d n acc s = JSONObject d m acc s"
    and "length s \<le> n \<Longrightarrow> length s \<le> m \<Longrightarrow> JSONArray d n arr s = JSONArray d m arr s"
proof (induction n arbitrary: m acc arr s)
  case 0
  {
    case 1
    then show ?case by (cases m) simp_all
  next
    case 2
    then show ?case by (cases m) simp_all
  }
next
  case (Suc n)
  {
    case 1
    show ?case
    proof (cases m)
      case 0
      with 1 show ?thesis by simp
    next
      case m: (Suc m')
      have rec: "JSONObject d n a (skip_ws (tl (skip_ws s2))) = JSONObject d m' a (skip_ws (tl (skip_ws s2)))"
        if "starts_with [CHR 0x22] s" and "scanstring (tl s) = Some (key, s1)"
          and "starts_with '':'' (skip_ws s1)"
          and "scan_once d (skip_ws (tl (skip_ws s1))) = Inr (v', s2)" for key s1 v' s2 a
      proof -
        from that(1) obtain t where s: "s = CHR 0x22 # t"
          using starts_with_single by blast
        from that(3) obtain u where u: "skip_ws s1 = CHR '':'' # u"
          using starts_with_single by blast
        have "length s2 < length (skip_ws u)"
          using scan_once_shorter that(4) u by simp
        also have "\<dots> \<le> length s1"
          using skip_ws_le [of u] skip_ws_le [of s1] u by simp
        also have "\<dots> < length s"
          using scanstring_shorter [OF that(2)] s by simp
        finally have "length s2 < length s" .
        moreover have "length (skip_ws (tl (skip_ws s2))) \<le> length s2"
          using skip_ws_le [of "tl (skip_ws s2)"] skip_ws_le [of s2] by simp
        ultimately have "length (skip_ws (tl (skip_ws s2))) \<le> n"
          and "length (skip_ws (tl (skip_ws s2))) \<le> m'"
          using 1 m by simp_all
        then show ?thesis by (rule Suc.IH(1))
      qed
      show ?thesis
        unfolding m
        by (auto simp del: scan_once.simps starts_with.simps simp: rec
            split: option.splits sum.splits)
    qed
  next
    case 2
    show ?case
    proof (cases m)
      case 0
      with 2 show ?thesis by simp
    next
      case m: (Suc m')
      have rec: "JSONArray d n a (skip_ws (tl (skip_ws s1))) = JSONArray d m' a (skip_ws (tl (skip_ws s1)))"
        if "scan_once d s = Inr (v', s1)" for v' s1 a
      proof -
        have "length s1 < length s"
          using scan_once_shorter that by simp
        moreover have "length (skip_ws (tl (skip_ws s1))) \<le> length s1"
          using skip_ws_le [of "tl (skip_ws s1)"] skip_ws_le [of s1] by simp
        ultimately have "length (skip_ws (tl (skip_ws s1))) \<le> n"
          and "length (skip_ws (tl (skip_ws s1))) \<le> m'"
          using 2 m by simp_all
        then show ?thesis by (rule Suc.IH(2))
      qed
      show ?thesis
        unfolding m
        by (auto simp del: scan_once.simps starts_with.simps simp: rec split: sum.splits)
    qed
  }
qed

section \<open>Properties of the reply parser\<close>

lemma JSONObject_is_dict:
  "JSONObject d n acc s = Inr (v, rest) \<Longrightarrow> \<exists>kvs. v = JObj kvs"
proof (induction n arbitrary: acc s)
  case 0
  then show ?case by simp
next
  case (Suc n)
  from Suc.prems show ?case
    by (auto simp del: scan_once.simps split: if_splits option.splits sum.splits prod.splits
        dest: Suc.IH)
qed

lemma scan_once_brace_is_dict:
  "scan_once d (CHR ''{'' # cs) = Inr (v, rest) \<Longrightarrow> \<exists>kvs. v = JObj kvs"
  by (cases d) (auto split: if_splits dest: JSONObject_is_dict)

lemma json_loads_brace_is_dict:
  assumes "json_loads d (CHR ''{'' # cs) = Inr v"
  shows "\<exists>kvs. v = JObj kvs"
proof -
  have "skip_ws (CHR ''{'' # cs) = CHR ''{'' # cs"
    by (simp add: skip_ws_def is_json_ws_def)
  with assms obtain rest where "scan_once d (CHR ''{'' # cs) = Inr (v, rest)"
    by (auto simp: json_loads_def simp del: scan_once.simps
        split: sum.splits prod.splits if_splits)
  then show ?thesis
    by (rule scan_once_brace_is_dict)
qed

lemma json_loads_empty: "json_loads d [] = Inl JSONDecodeError"
  by (simp add: json_loads_def skip_ws_def)

lemma slice_from_brace:
  assumes "CHR ''{'' \<in> set s"
  shows "slice (find_char CHR ''{'' s) j s = [] \<or> (\<exists>cs. slice (find_char CHR ''{'' s) j s = CHR ''{'' # cs)"
proof -
  have "drop (find_char CHR ''{'' s) s = dropWhile (\<lambda>x. x \<noteq> CHR ''{'') s"
    by (simp add: find_char_def dropWhile_eq_drop)
  moreover have "dropWhile (\<lambda>x. x \<noteq> CHR ''{'') s \<noteq> []"
    using assms by auto
  then obtain c cs where "dropWhile (\<lambda>x. x \<noteq> CHR ''{'') s = c # cs"
    by (cases "dropWhile (\<lambda>x. x \<noteq> CHR ''{'') s") auto
  moreover from this have "c = CHR ''{''"
    using hd_dropWhile [of "\<lambda>x. x \<noteq> CHR ''{''" s] by auto
  ultimately show ?thesis
    by (cases "j - find_char CHR ''{'' s") (simp_all add: slice_def)
qed

lemma parse_json_response_is_dict: "\<exists>kvs. parse_json_response d r = JObj kvs"
proof (cases "CHR ''{'' \<in> set (strip r) \<and> CHR ''}'' \<in> set (strip r)")
  case False
  then show ?thesis by (auto simp: parse_json_response_def Let_def)
next
  case True
  let ?t = "slice (find_char CHR ''{'' (strip r)) (rfind_char CHR ''}'' (strip r) + 1) (strip r)"
  have eq: "parse_json_response d r =
     (case json_loads d ?t of
                 Inr v \<Rightarrow> v
               | Inl JSONDecodeError \<Rightarrow>
                   JObj [(''error'', JStr ''Invalid JSON''), (''raw_response'', JStr (strip r))]
               | Inl RecursionError \<Rightarrow>
                   JObj [(''error'', JStr ''Parse error''), (''raw_response'', JStr (strip r))]
               | Inl ValueError \<Rightarrow>
                   JObj [(''error'', JStr ''Parse error''), (''raw_response'', JStr (strip r))])"
    using True by (simp add: parse_json_response_def Let_def)
  from slice_from_brace [of "strip r"] True
  consider "?t = []" | cs where "?t = CHR ''{'' # cs" by blast
  then show ?thesis
  proof cases
    case 1
    then show ?thesis by (simp add: eq json_loads_empty)
  next
    case 2
    then show ?thesis
      using json_loads_brace_is_dict [of d cs]
      by (cases "json_loads d (CHR ''{'' # cs)") (auto simp: eq split: json_exn.splits)
  qed
qed

lemma slice_outer_braces:
  assumes "CHR ''{'' \<notin> set pre" and "CHR ''}'' \<notin> set post"
  shows "slice (find_char CHR ''{'' (pre @ CHR ''{'' # mid @ CHR ''}'' # post))
               (rfind_char CHR ''}'' (pre @ CHR ''{'' # mid @ CHR ''}'' # post) + 1)
               (pre @ CHR ''{'' # mid @ CHR ''}'' # post)
         = CHR ''{'' # mid @ [CHR ''}'']"
proof -
  let ?s = "pre @ CHR ''{'' # mid @ CHR ''}'' # post"
  have p1: "\<And>x. x \<in> set pre \<Longrightarrow> x \<noteq> CHR ''{''"
    using assms(1) by auto
  have p2: "\<And>x. x \<in> set (rev post) \<Longrightarrow> x \<noteq> CHR ''}''"
    using assms(2) by auto
  have "takeWhile (\<lambda>x. x \<noteq> CHR ''{'') (pre @ CHR ''{'' # (mid @ CHR ''}'' # post)) = pre"
    using p1 by (subst takeWhile_append2) simp_all
  then have f: "find_char CHR ''{'' ?s = length pre"
    by (simp only: find_char_def)
  have rv: "rev ?s = rev post @ CHR ''}'' # (rev mid @ CHR ''{'' # rev pre)"
    by simp
  have "takeWhile (\<lambda>x. x \<noteq> CHR ''}'') (rev post @ CHR ''}'' # (rev mid @ CHR ''{'' # rev pre))
      = rev post"
    using p2 by (subst takeWhile_append2) simp_all
  then have "length (takeWhile (\<lambda>x. x \<noteq> CHR ''}'') (rev ?s)) = length post"
    by (simp only: rv length_rev)
  then have r: "rfind_char CHR ''}'' ?s + 1 = length pre + length mid + 2"
    by (simp add: rfind_char_def)
  have "drop (length pre) ?s = CHR ''{'' # mid @ CHR ''}'' # post"
    by simp
  then show ?thesis
    unfolding slice_def f r by simp
qed

text \<open>
  C7, as the claim states it, fails: the reply \<^verbatim>\<open>{"a": 1} {"b": 2}\<close> holds two objects, the
  first of which decodes, yet the parser answers with the sentinel and not with the first
  object.
\<close>

theorem parse_json_response_first_object_counterexample:
  \<open>json_loads 1000 ''{"a": 1}'' = Inr (JObj [(''a'', JInt 1)])
   \<and> parse_json_response 1000 ''{"a": 1} {"b": 2}''
       = JObj [(''error'', JStr ''Invalid JSON''), (''raw_response'', JStr ''{"a": 1} {"b": 2}'')]
   \<and> parse_json_response 1000 ''{"a": 1} {"b": 2}'' \<noteq> JObj [(''a'', JInt 1)]\<close>
  by code_simp

text \<open>
  C7, amended. For every reply the parser returns a dictionary. When the stripped reply is
  a text without an opening brace, then an opening brace, any text, a closing brace and a
  text without a closing brace, the parser decodes the text from that first opening brace
  to that last closing brace, and returns the decoded value, or on a decoding failure the
  sentinel holding an error tag and the stripped reply: the tag "Invalid JSON" for a text
  that is not JSON, the tag "Parse error" for any other failure. When the stripped reply lacks one
  of the two braces, it returns a dictionary holding an error tag only.
\<close>

theorem parse_json_response_outer_braces:
  "(\<exists>kvs. parse_json_response d r = JObj kvs)
   \<and> (strip r = pre @ CHR ''{'' # mid @ CHR ''}'' # post \<and> CHR ''{'' \<notin> set pre
        \<and> CHR ''}'' \<notin> set post \<longrightarrow>
        parse_json_response d r =
          (case json_loads d (CHR ''{'' # mid @ [CHR ''}'']) of
             Inr v \<Rightarrow> v
           | Inl JSONDecodeError \<Rightarrow>
               JObj [(''error'', JStr ''Invalid JSON''), (''raw_response'', JStr (strip r))]
           | Inl RecursionError \<Rightarrow>
               JObj [(''error'', JStr ''Parse error''), (''raw_response'', JStr (strip r))]
           | Inl ValueError \<Rightarrow>
               JObj [(''error'', JStr ''Parse error''), (''raw_response'', JStr (strip r))]))
   \<and> (CHR ''{'' \<notin> set (strip r) \<or> CHR ''}'' \<notin> set (strip r) \<longrightarrow>
        parse_json_response d r = JObj [(''error'', JStr ''No JSON found in response'')])"
proof (intro conjI impI)
  show "\<exists>kvs. parse_json_response d r = JObj kvs"
    by (rule parse_json_response_is_dict)
next
  assume a: "strip r = pre @ CHR ''{'' # mid @ CHR ''}'' # post \<and> CHR ''{'' \<notin> set pre
        \<and> CHR ''}'' \<notin> set post"
  then have "slice (find_char CHR ''{'' (strip r)) (rfind_char CHR ''}'' (strip r) + 1) (strip r)
      = CHR ''{'' # mid @ [CHR ''}'']"
    using slice_outer_braces [of pre post mid] by simp
  moreover have "CHR ''{'' \<in> set (strip r) \<and> CHR ''}'' \<in> set (strip r)"
    using a by simp
  ultimately show "parse_json_response d r =
          (case json_loads d (CHR ''{'' # mid @ [CHR ''}'']) of
             Inr v \<Rightarrow> v
           | Inl JSONDecodeError \<Rightarrow>
               JObj [(''error'', JStr ''Invalid JSON''), (''raw_response'', JStr (strip r))]
           | Inl RecursionError \<Rightarrow>
               JObj [(''error'', JStr ''Parse error''), (''raw_response'', JStr (strip r))]
           | Inl ValueError \<Rightarrow>
               JObj [(''error'', JStr ''Parse error''), (''raw_response'', JStr (strip r))])"
    by (simp add: parse_json_response_def Let_def)
next
  assume "CHR ''{'' \<notin> set (strip r) \<or> CHR ''}'' \<notin> set (strip r)"
  then show "parse_json_response d r = JObj [(''error'', JStr ''No JSON found in response'')]"
    by (auto simp: parse_json_response_def Let_def)
qed

theorem parse_json_response_outer_braces_witness:
  \<open>parse_json_response 1000 ''Sure: {"action": "retry"} ok '' = JObj [(''action'', JStr ''retry'')]\<close>
proof -
  have h1: \<open>strip ''Sure: {"action": "retry"} ok ''
        = ''Sure: '' @ CHR ''{'' # ''"action": "retry"'' @ CHR ''}'' # '' ok''
      \<and> CHR ''{'' \<notin> set ''Sure: '' \<and> CHR ''}'' \<notin> set '' ok''\<close>
    by code_simp
  have h2: \<open>json_loads 1000 (CHR ''{'' # ''"action": "retry"'' @ [CHR ''}''])
      = Inr (JObj [(''action'', JStr ''retry'')])\<close>
    by code_simp
  from parse_json_response_outer_braces [of 1000 \<open>''Sure: {"action": "retry"} ok ''\<close>
      \<open>''Sure: ''\<close> \<open>''"action": "retry"''\<close> \<open>'' ok''\<close>] h1
  have \<open>parse_json_response 1000 ''Sure: {"action": "retry"} ok '' =
          (case json_loads 1000 (CHR ''{'' # ''"action": "retry"'' @ [CHR ''}'']) of
             Inr v \<Rightarrow> v
           | Inl JSONDecodeError \<Rightarrow>
               JObj [(''error'', JStr ''Invalid JSON''),
                     (''raw_response'', JStr (strip ''Sure: {"action": "retry"} ok ''))]
           | Inl RecursionError \<Rightarrow>
               JObj [(''error'', JStr ''Parse error''),
                     (''raw_response'', JStr (strip ''Sure: {"action": "retry"} ok ''))]
           | Inl ValueError \<Rightarrow>
               JObj [(''error'', JStr ''Parse error''),
                     (''raw_response'', JStr (strip ''Sure: {"action": "retry"} ok ''))])\<close>
    by blast
  then show ?thesis
    by (simp only: h2 sum.case)
qed

section \<open>Properties of the error analysis\<close>

lemma str_int_3: "str_int 3 = ''3''"
  by code_simp

text \<open>
  C2. When \<^verbatim>\<open>error_msg\<close> is not empty and the retry count has reached \<^verbatim>\<open>max_retries\<close>,
  \<^verbatim>\<open>error_analyzer\<close> sets \<^verbatim>\<open>analysis_action\<close> to "fail" and \<^verbatim>\<open>final_response\<close> to
  "Failed after <max_retries> attempts: <error_msg>", changes nothing else, sends nothing
  to the language model, and does the same whatever the language model would answer.
\<close>

theorem error_analyzer_ceiling:
  assumes "error_msg s = Some em" and "em \<noteq> []" and "max_retries e \<le> int (get_retry_count s)"
  shows "error_analyzer e (w, s)
      = (w, s\<lparr>analysis_action := Some ''fail'',
              final_response := Some (''Failed after '' @ str_int (max_retries e)
                                       @ '' attempts: '' @ em)\<rparr>)
    \<and> error_analyzer (e\<lparr>llm_invoke := f\<rparr>) (w, s) = error_analyzer e (w, s)"
  using assms by (simp add: error_analyzer_def)

theorem error_analyzer_ceiling_witness:
  \<open>error_analyzer (scripted_env [Inr ''{"action": "retry"}''] [] 3)
      (world0, (state_with_sql ''open incidents'' ''SELECT nmber FROM incident'')
                  \<lparr>error_msg := Some ''Invalid SQL: nmber'', retry_count := Some 3\<rparr>)
    = (world0, (state_with_sql ''open incidents'' ''SELECT nmber FROM incident'')
                  \<lparr>error_msg := Some ''Invalid SQL: nmber'', retry_count := Some 3,
                   analysis_action := Some ''fail'',
                   final_response := Some ''Failed after 3 attempts: Invalid SQL: nmber''\<rparr>)\<close>
  using error_analyzer_ceiling [of
      \<open>(state_with_sql ''open incidents'' ''SELECT nmber FROM incident'')
                  \<lparr>error_msg := Some ''Invalid SQL: nmber'', retry_count := Some 3\<rparr>\<close>
      \<open>''Invalid SQL: nmber''\<close> \<open>scripted_env [Inr ''{"action": "retry"}''] [] 3\<close> world0]
  by (simp add: scripted_env_def get_retry_count_def str_int_3)

section \<open>Properties of a whole turn\<close>

text \<open>
  C8 at an input where the code departs from it: the language model answers a greeting
  with the empty text, \<^verbatim>\<open>general_response\<close> stores it as \<^verbatim>\<open>final_response\<close>, and
  \<^verbatim>\<open>update_history\<close> appends an entry whose \<^verbatim>\<open>bot\<close> is the empty text, not the default.
\<close>

theorem update_history_empty_answer:
  \<open>map_sum id messages
     (snd (run_from 2 (scripted_env [Inr ''''] [] 3) General
        (world0, (create_initial_state assistant0 ''Hi there!'' None)\<lparr>intent := JStr ''greeting''\<rparr>)))
   = Inr (Some [\<lparr>user_text = ''Hi there!'', bot_text = ''''\<rparr>])\<close>
  by code_simp

text \<open>
  C3 at an input where the code departs from it: on "Hi there!", with a language model
  that classifies the prompt as a greeting and then answers with the empty text,
  \<^verbatim>\<open>process_query\<close> reports success and returns an empty \<^verbatim>\<open>model_response\<close>.
\<close>

theorem process_query_empty_answer:
  \<open>qr_model_response (snd
     (process_query (scripted_env [Inr ''{"intent": "greeting"}'', Inr ''''] [] 3) ''t0''
        (assistant0, world0) ''Hi there!'' None)) = ''''
   \<and> qr_success (snd
     (process_query (scripted_env [Inr ''{"intent": "greeting"}'', Inr ''''] [] 3) ''t0''
        (assistant0, world0) ''Hi there!'' None))\<close>
  by code_simp

section \<open>Properties of the feedback record\<close>

text \<open>
  C9 at an input where the code departs from it. Recording feedback twice for the same
  query text leaves two entries with that query text; and when a feedback with a comment
  is recorded twice for it, the second comment replaces the first on the older entry,
  while the newer entry keeps the default comment.
\<close>

theorem record_feedback_twice_duplicates:
  "map fb_query (the_entries
      (record_feedback ''t2'' (record_feedback ''t1'' assistant0 ''u1'' ''open incidents'' ''like'')
         ''u1'' ''open incidents'' ''dislike'') ''u1'')
     = [''open incidents'', ''open incidents'']
   \<and> the_entries
      (record_comment ''t4''
         (record_feedback ''t3''
            (record_comment ''t2''
               (record_feedback ''t1'' assistant0 ''u1'' ''open incidents'' ''like'')
               ''u1'' ''open incidents'' ''fine'')
            ''u1'' ''open incidents'' ''dislike'')
         ''u1'' ''open incidents'' ''too slow'') ''u1''
     = [\<lparr>fb_query = ''open incidents'', fb_feedback = ''like'', fb_comments = ''too slow'',
         fb_timestamp = ''t1''\<rparr>,
        \<lparr>fb_query = ''open incidents'', fb_feedback = ''dislike'',
         fb_comments = ''user did not provide comments'', fb_timestamp = ''t3''\<rparr>]"
  by (simp add: record_feedback_def record_comment_def the_entries_def assistant0_def Let_def)

section \<open>Properties of the retry cycle\<close>

lemma split_from_nonempty: "split_from sep acc s \<noteq> []"
  by (induction sep acc s rule: split_from.induct) auto

lemma split_from_two:
  "sep \<noteq> [] \<Longrightarrow> contains sep s \<Longrightarrow> 2 \<le> length (split_from sep acc s)"
proof (induction sep acc s rule: split_from.induct)
  case (1 sep acc)
  then show ?case by simp
next
  case (2 sep acc c cs)
  show ?case
  proof (cases "starts_with sep (c # cs)")
    case True
    have "1 \<le> length (split_from sep [] (drop (length sep - 1) cs))"
      using split_from_nonempty [of sep "[]" "drop (length sep - 1) cs"]
      by (cases "split_from sep [] (drop (length sep - 1) cs)") auto
    with True 2 show ?thesis by simp
  next
    case False
    with 2 show ?thesis by simp
  qed
qed

lemma clean_sql_total: "\<exists>q. clean_sql r = Inr q"
proof -
  have ne: "fence \<noteq> []" "fence @ ''sql'' \<noteq> []"
    by (simp_all add: fence_def)
  have z: "\<And>t sep. 0 < length (split t sep)"
    using split_from_nonempty by (simp add: split_def)
  show ?thesis
    using split_from_two [OF ne(1), of "strip r" "[]"] split_from_two [OF ne(2), of "strip r" "[]"] z
    by (auto simp: clean_sql_def Let_def item_def split_def split: sum.splits)
qed

lemma execute_sql_bq_log:
  "bq_log (fst (execute_sql e (w, s)))
     = bq_log w @ (case sql_query s of None \<Rightarrow> [] | Some q \<Rightarrow> if truthy q then [q] else [])"
  by (simp add: execute_sql_def execute_query_def split: option.splits sum.splits bq_exn.splits)

lemma error_analyzer_retry:
  assumes "error_msg s = Some em" and "em \<noteq> []"
    and "int (get_retry_count s) < max_retries e"
    and "retry_count s = Some n"
    and "sql_query s = Some q0"
    and "error_analysis_prompt e em q0 = Inr p"
    and "llm_invoke e (length (llm_log w)) p = Inr reply"
    and "parse_json_response (recursion_limit e) reply = JObj parsed"
    and "dict_get parsed ''action'' = Some (JStr ''retry'')"
  shows "error_analyzer e (w, s)
     = (exponential_backoff n (w\<lparr>llm_log := llm_log w @ [p]\<rparr>),
        (case dict_get parsed ''suggested_sql'' of
           None \<Rightarrow> s\<lparr>analysis := (case dict_get parsed ''analysis'' of
                                      None \<Rightarrow> JStr [] | Some v \<Rightarrow> v),
                      analysis_action := Some ''retry''\<rparr>
         | Some v \<Rightarrow> s\<lparr>analysis := (case dict_get parsed ''analysis'' of
                                      None \<Rightarrow> JStr [] | Some v \<Rightarrow> v),
                      analysis_action := Some ''retry'', sql_query := Some v\<rparr>))"
  using assms
  by (simp add: error_analyzer_def llm_call_def apply_analysis_def Let_def split: option.splits)

text \<open>
  C10. When \<^verbatim>\<open>error_analyzer\<close> decides "retry" and the reply carries a suggested SQL, the
  suggestion becomes \<^verbatim>\<open>sql_query\<close> and the next step is \<^verbatim>\<open>generate_sql\<close>. If the prompt
  renders and the language model answers there, \<^verbatim>\<open>sql_query\<close> becomes the cleaned answer and
  the execute step sends that text to the warehouse (nothing when it is empty), whatever
  was suggested. If the prompt or the language model fails there, \<^verbatim>\<open>sql_query\<close> is still
  the suggestion and the execute step sends the suggestion.
\<close>

theorem suggested_sql_overwritten:
  assumes "error_msg s = Some em" and "em \<noteq> []"
    and "int (get_retry_count s) < max_retries e"
    and "retry_count s = Some n"
    and "sql_query s = Some q0"
    and "error_analysis_prompt e em q0 = Inr p"
    and "llm_invoke e (length (llm_log w)) p = Inr reply"
    and "parse_json_response (recursion_limit e) reply = JObj parsed"
    and "dict_get parsed ''action'' = Some (JStr ''retry'')"
    and "dict_get parsed ''suggested_sql'' = Some v"
  shows "sql_query (snd (error_analyzer e (w, s))) = Some v
    \<and> next_nodes Error_analyzer (snd (error_analyzer e (w, s))) = Inr [Generate_sql]
    \<and> (\<forall>p2 r. sql_gen_prompt e (rephrased_prompt s) (relevant_schemas s) = Inr p2
           \<and> llm_invoke e (Suc (length (llm_log w))) p2 = Inr r \<longrightarrow>
         (\<exists>q. clean_sql r = Inr q
            \<and> sql_query (snd (generate_sql e (error_analyzer e (w, s)))) = Some (JStr q)
            \<and> bq_log (fst (execute_sql e (generate_sql e (error_analyzer e (w, s)))))
                = bq_log w @ (if q \<noteq> [] then [JStr q] else [])))
    \<and> ((\<exists>m. sql_gen_prompt e (rephrased_prompt s) (relevant_schemas s) = Inl m)
         \<or> (\<exists>p2 m. sql_gen_prompt e (rephrased_prompt s) (relevant_schemas s) = Inr p2
               \<and> llm_invoke e (Suc (length (llm_log w))) p2 = Inl m) \<longrightarrow>
         sql_query (snd (generate_sql e (error_analyzer e (w, s)))) = Some v
         \<and> bq_log (fst (execute_sql e (generate_sql e (error_analyzer e (w, s)))))
             = bq_log w @ (if truthy v then [v] else []))"
proof -
  define w1 where "w1 = exponential_backoff n (w\<lparr>llm_log := llm_log w @ [p]\<rparr>)"
  define s1 where "s1 = s\<lparr>analysis := (case dict_get parsed ''analysis'' of
                                      None \<Rightarrow> JStr [] | Some v \<Rightarrow> v),
                      analysis_action := Some ''retry'', sql_query := Some v\<rparr>"
  have ea: "error_analyzer e (w, s) = (w1, s1)"
    using error_analyzer_retry [OF assms(1-9)] assms(10) by (simp add: w1_def s1_def)
  have w1: "llm_log w1 = llm_log w @ [p]" "bq_log w1 = bq_log w"
    by (simp_all add: w1_def exponential_backoff_def)
  have s1: "sql_query s1 = Some v" "analysis_action s1 = Some ''retry''"
    "rephrased_prompt s1 = rephrased_prompt s" "relevant_schemas s1 = relevant_schemas s"
    by (simp_all add: s1_def)
  have a: "sql_query (snd (error_analyzer e (w, s))) = Some v"
    by (simp add: ea s1)
  have b: "next_nodes Error_analyzer (snd (error_analyzer e (w, s))) = Inr [Generate_sql]"
    by (simp add: ea s1 analyzer_ends_def)
  have c: "\<exists>q. clean_sql r = Inr q
            \<and> sql_query (snd (generate_sql e (error_analyzer e (w, s)))) = Some (JStr q)
            \<and> bq_log (fst (execute_sql e (generate_sql e (error_analyzer e (w, s)))))
                = bq_log w @ (if q \<noteq> [] then [JStr q] else [])"
    if h: "sql_gen_prompt e (rephrased_prompt s) (relevant_schemas s) = Inr p2
           \<and> llm_invoke e (Suc (length (llm_log w))) p2 = Inr r" for p2 r
  proof -
    obtain q where q: "clean_sql r = Inr q"
      using clean_sql_total by blast
    have g: "generate_sql e (w1, s1) = (w1\<lparr>llm_log := llm_log w1 @ [p2]\<rparr>, s1\<lparr>sql_query := Some (JStr q)\<rparr>)"
      using h q by (simp add: generate_sql_def llm_call_def w1 s1)
    show ?thesis
      by (rule exI [of _ q]) (simp add: q ea g execute_sql_bq_log w1)
  qed
  have d: "sql_query (snd (generate_sql e (error_analyzer e (w, s)))) = Some v
         \<and> bq_log (fst (execute_sql e (generate_sql e (error_analyzer e (w, s)))))
             = bq_log w @ (if truthy v then [v] else [])"
    if h: "(\<exists>m. sql_gen_prompt e (rephrased_prompt s) (relevant_schemas s) = Inl m)
         \<or> (\<exists>p2 m. sql_gen_prompt e (rephrased_prompt s) (relevant_schemas s) = Inr p2
               \<and> llm_invoke e (Suc (length (llm_log w))) p2 = Inl m)"
  proof -
    from h obtain w2 m where g: "generate_sql e (w1, s1) = (w2, generate_failed m s1)"
      and w2: "bq_log w2 = bq_log w1"
      by (auto simp: generate_sql_def llm_call_def w1 s1)
    show ?thesis
      by (simp add: ea g execute_sql_bq_log w1 w2 generate_failed_def s1)
  qed
  from a b c d show ?thesis by blast
qed

theorem suggested_sql_overwritten_witness:
  "sql_query (snd (error_analyzer retry_env (world0, failed_state))) = Some (JStr ''SELECT 1'')
   \<and> bq_log (fst (execute_sql retry_env (generate_sql retry_env
          (error_analyzer retry_env (world0, failed_state)))))
       = [JStr ''SELECT number FROM incident'']"
proof -
  have h1: "error_msg failed_state = Some ''Invalid SQL: nmber''" "''Invalid SQL: nmber'' \<noteq> []"
    "int (get_retry_count failed_state) < max_retries retry_env"
    "retry_count failed_state = Some 1"
    "sql_query failed_state = Some (JStr ''SELECT nmber FROM incident'')"
    "error_analysis_prompt retry_env ''Invalid SQL: nmber'' (JStr ''SELECT nmber FROM incident'')
       = Inr ''diagnose: Invalid SQL: nmber''"
    by (simp_all add: failed_state_def state_with_sql_def retry_env_def scripted_env_def
        get_retry_count_def)
  have h2: \<open>llm_invoke retry_env (length (llm_log world0)) ''diagnose: Invalid SQL: nmber''
       = Inr ''{"action": "retry", "suggested_sql": "SELECT 1"}''\<close>
    by (simp add: retry_env_def scripted_env_def world0_def)
  have h3: \<open>parse_json_response (recursion_limit retry_env)
        ''{"action": "retry", "suggested_sql": "SELECT 1"}''
      = JObj [(''action'', JStr ''retry''), (''suggested_sql'', JStr ''SELECT 1'')]\<close>
    by code_simp
  have h4: "dict_get [(''action'', JStr ''retry''), (''suggested_sql'', JStr ''SELECT 1'')] ''action''
      = Some (JStr ''retry'')"
    "dict_get [(''action'', JStr ''retry''), (''suggested_sql'', JStr ''SELECT 1'')] ''suggested_sql''
      = Some (JStr ''SELECT 1'')"
    by (simp_all add: dict_get_def)
  note t = suggested_sql_overwritten [OF h1 h2 h3 h4]
  have g: "sql_gen_prompt retry_env (rephrased_prompt failed_state) (relevant_schemas failed_state)
       = Inr ''write sql''
     \<and> llm_invoke retry_env (Suc (length (llm_log world0))) ''write sql''
       = Inr ''SELECT number FROM incident''"
    by (simp add: retry_env_def scripted_env_def world0_def)
  have c: "clean_sql ''SELECT number FROM incident'' = Inr ''SELECT number FROM incident''"
    by code_simp
  from t g obtain q where "clean_sql ''SELECT number FROM incident'' = Inr q"
    and "bq_log (fst (execute_sql retry_env (generate_sql retry_env
          (error_analyzer retry_env (world0, failed_state)))))
       = bq_log world0 @ (if q \<noteq> [] then [JStr q] else [])"
    by blast
  with c have "bq_log (fst (execute_sql retry_env (generate_sql retry_env
          (error_analyzer retry_env (world0, failed_state)))))
       = [JStr ''SELECT number FROM incident'']"
    by (simp add: world0_def)
  with t show ?thesis by blast
qed

text \<open>
  C1 at an input where the code departs from it. With the language model of \<open>stuck_env\<close>
  the execute step finds no SQL and returns early, without counting the attempt.
\<close>

lemma stuck_parse:
  \<open>parse_json_response 1000 ''{"action": "retry"}'' = JObj [(''action'', JStr ''retry'')]\<close>
  \<open>parse_json_response 1000 ''{"intent": "data_query"}'' = JObj [(''intent'', JStr ''data_query'')]\<close>
  by code_simp+

lemma stuck_clean: "clean_sql [] = Inr []"
  by code_simp

lemma stuck_generate:
  "no_sql s \<Longrightarrow> \<exists>w'. generate_sql (stuck_env L) (w, s) = (w', s)"
  by (cases s) (auto simp: generate_sql_def stuck_env_def scripted_env_def llm_call_def stuck_clean no_sql_def)

lemma stuck_execute:
  "no_sql s \<Longrightarrow> execute_sql e (w, s) = (w, s\<lparr>error_msg := Some ''No SQL query to execute''\<rparr>)"
  by (simp add: execute_sql_def no_sql_def)

lemma stuck_analyze:
  assumes "no_sql s" and "error_msg s = Some ''No SQL query to execute''"
  shows "\<exists>w' s'. error_analyzer (stuck_env L) (w, s) = (w', s') \<and> no_sql s'
     \<and> analysis_action s' = Some ''retry''"
  using assms
  by (simp add: error_analyzer_def stuck_env_def scripted_env_def llm_call_def no_sql_def
      get_retry_count_def stuck_parse apply_analysis_def dict_get_def Let_def)

lemma stuck_cycle:
  assumes "no_sql s"
  shows "\<exists>w' s'. retry_cycle (stuck_env L) (w, s) = (w', s')
     \<and> no_sql s' \<and> analysis_action s' = Some ''retry''"
proof -
  obtain w1 where g: "generate_sql (stuck_env L) (w, s) = (w1, s)"
    using stuck_generate [OF assms] by blast
  have "no_sql (s\<lparr>error_msg := Some ''No SQL query to execute''\<rparr>)"
    using assms by (simp add: no_sql_def)
  from stuck_analyze [OF this, of L w1] show ?thesis
    by (simp add: retry_cycle_def g stuck_execute [OF assms])
qed

lemma stuck_entry_intent:
  "intent (snd (classify_intent (stuck_env L)
      (world0, create_initial_state assistant0 ''count incidents'' None))) = JStr ''data_query''"
  by (simp add: classify_intent_def stuck_env_def scripted_env_def llm_call_def stuck_parse
      dict_get_def create_initial_state_def)

lemma stuck_entry_no_sql: "no_sql (snd (stuck_entry L))"
  by (simp add: stuck_entry_def retrieve_schemas_def classify_intent_def stuck_env_def
      scripted_env_def llm_call_def stuck_parse dict_get_def create_initial_state_def no_sql_def)

lemma stuck_cycles:
  "no_sql (snd ((retry_cycle (stuck_env L) ^^ k) (stuck_entry L)))
   \<and> (0 < k \<longrightarrow>
        analysis_action (snd ((retry_cycle (stuck_env L) ^^ k) (stuck_entry L))) = Some ''retry'')"
proof (induction k)
  case 0
  show ?case by (simp add: stuck_entry_no_sql)
next
  case (Suc k)
  let ?ws = "(retry_cycle (stuck_env L) ^^ k) (stuck_entry L)"
  from Suc have "no_sql (snd ?ws)" by simp
  from stuck_cycle [OF this, of L "fst ?ws"] show ?case
    by auto
qed

lemma stuck_loop:
  "no_sql s \<Longrightarrow> snd (run_from left (stuck_env L) Generate_sql (w, s)) = Inl GraphRecursionError"
proof (induction left arbitrary: w s rule: less_induct)
  case (less left)
  obtain w' s' where c: "retry_cycle (stuck_env L) (w, s) = (w', s')"
    and s': "no_sql s'" "analysis_action s' = Some ''retry''"
    using stuck_cycle [OF less.prems] by blast
  show ?case
  proof (cases left)
    case 0
    then show ?thesis by simp
  next
    case (Suc f1)
    show ?thesis
    proof (cases f1)
      case 0
      with Suc show ?thesis by (simp add: Let_def)
    next
      case (Suc f2)
      note f1 = Suc
      show ?thesis
      proof (cases f2)
        case 0
        with f1 \<open>left = Suc f1\<close> show ?thesis by (simp add: Let_def)
      next
        case (Suc f3)
        have "f3 < left"
          using Suc f1 \<open>left = Suc f1\<close> by simp
        from less.IH [OF this s'(1)]
        have "snd (run_from f3 (stuck_env L) Generate_sql (w', s')) = Inl GraphRecursionError" .
        moreover have "run_from left (stuck_env L) Generate_sql (w, s)
            = run_from f3 (stuck_env L) Generate_sql (w', s')"
          using c s'(2) unfolding Suc f1 \<open>left = Suc f1\<close>
          by (simp add: Let_def retry_cycle_def analyzer_ends_def)
        ultimately show ?thesis by simp
      qed
    qed
  qed
qed

lemma stuck_invoke:
  "snd (invoke (stuck_env L) (world0, create_initial_state assistant0 ''count incidents'' None))
     = Inl GraphRecursionError"
proof -
  let ?s0 = "create_initial_state assistant0 ''count incidents'' None"
  have sl: "\<And>n. step_limit (stuck_env n) = n"
    by (simp add: stuck_env_def)
  show ?thesis
  proof (cases L)
    case 0
    then show ?thesis by (simp add: invoke_def sl)
  next
    case (Suc f1)
    show ?thesis
    proof (cases f1)
      case 0
      with Suc stuck_entry_intent [of L] show ?thesis
        by (simp add: invoke_def sl Let_def)
    next
      case (Suc f2)
      have "invoke (stuck_env L) (world0, ?s0)
          = run_from f2 (stuck_env L) Generate_sql (stuck_entry L)"
        using stuck_entry_intent [of L] unfolding invoke_def sl Suc \<open>L = Suc f1\<close>
        by (simp add: Let_def stuck_entry_def)
      then show ?thesis
        using stuck_loop [OF stuck_entry_no_sql [of L], where left = f2 and L = L
            and w = "fst (stuck_entry L)"]
        by simp
    qed
  qed
qed

text \<open>
  C1, the passages and the turn as a whole. Every passage through \<^verbatim>\<open>generate_sql\<close>,
  \<^verbatim>\<open>execute\<close> and \<^verbatim>\<open>error_analyzer\<close> comes back to \<^verbatim>\<open>generate_sql\<close> with the retry count
  still 0, below the maximum of 3. Whatever its step limit, the graph ends by the step
  limit's exception only, which \<^verbatim>\<open>process_query\<close> turns into its reply of failure.
\<close>

theorem retry_cycle_keeps_count:
  "retry_count (snd ((retry_cycle (stuck_env L) ^^ k) (stuck_entry L))) = Some 0
   \<and> next_nodes Error_analyzer (snd ((retry_cycle (stuck_env L) ^^ Suc k) (stuck_entry L)))
       = Inr [Generate_sql]
   \<and> max_retries (stuck_env L) = 3
   \<and> snd (invoke (stuck_env L)
        (world0, create_initial_state assistant0 ''count incidents'' None))
       = Inl GraphRecursionError
   \<and> qr_success (snd (process_query (stuck_env L) now (assistant0, world0)
        ''count incidents'' None)) = False
   \<and> qr_error (snd (process_query (stuck_env L) now (assistant0, world0)
        ''count incidents'' None)) = Some GraphRecursionError"
proof -
  have a: "retry_count (snd ((retry_cycle (stuck_env L) ^^ k) (stuck_entry L))) = Some 0"
    using stuck_cycles [where L = L and k = k] by (simp add: no_sql_def)
  have b: "next_nodes Error_analyzer (snd ((retry_cycle (stuck_env L) ^^ Suc k) (stuck_entry L)))
       = Inr [Generate_sql]"
    using stuck_cycles [where L = L and k = "Suc k"] by (simp add: analyzer_ends_def)
  have c: "max_retries (stuck_env L) = 3"
    by (simp add: stuck_env_def scripted_env_def)
  obtain w' where i: "invoke (stuck_env L)
        (world0, create_initial_state assistant0 ''count incidents'' None)
       = (w', Inl GraphRecursionError)"
    using stuck_invoke [of L]
    by (cases "invoke (stuck_env L)
        (world0, create_initial_state assistant0 ''count incidents'' None)") auto
  have d: "qr_success (snd (process_query (stuck_env L) now (assistant0, world0)
        ''count incidents'' None)) = False"
    and e: "qr_error (snd (process_query (stuck_env L) now (assistant0, world0)
        ''count incidents'' None)) = Some GraphRecursionError"
    by (simp_all add: process_query_def i)
  from a b c stuck_invoke [of L] d e show ?thesis by blast
qed

end
